theory Spec2Isabelle
  imports Main "HOL-Library.AList"
begin

section \<open>Data model of the WebSocket room server\<close>

text \<open>
  The server keeps two process-wide tables (\<open>connections\<close> and \<open>roomConnections\<close>) and
  one mutable object per client socket.  A \<open>RoomConnection\<close> holds a reference to the
  socket object, and \<open>broadcastToRoom\<close> reads the socket's \<open>readyState\<close> through that
  reference, so sockets live in an explicit store indexed by a connection number.

  A JavaScript \<open>Map\<close> iterates in insertion order and \<open>set\<close> on a present key replaces
  the value in place.  The room table and each room's member map are therefore
  association lists, with \<open>AList.update\<close> for \<open>Map.set\<close>, \<open>AList.delete\<close> for
  \<open>Map.delete\<close> and \<open>map_of\<close> for \<open>Map.get\<close>.  A member map is an object held by
  the room table, so \<open>roomUsers.set\<close> and \<open>roomUsers.delete\<close> replace the value stored
  under the room's key.  The registry \<open>connections\<close> is only read and written by key
  and is a HOL map.
\<close>

datatype ready_state = CONNECTING | OPEN | CLOSING | CLOSED

record ext_ws =
  userId :: "string option"
  roomId :: "string option"
  isAlive :: bool
  readyState :: ready_state

record room_connection =
  rc_userId :: string
  rc_username :: string
  rc_ws :: nat
  rc_joinedAt :: nat

record server_state =
  sockets :: "nat \<Rightarrow> ext_ws"
  connections :: "string \<rightharpoonup> nat"
  roomConnections :: "(string \<times> (string \<times> room_connection) list) list"

subsection \<open>Messages\<close>

record chat_message =
  cm_roomId :: string
  cm_message :: string
  cm_senderId :: "string option"
  cm_id :: "string option"
  cm_timestamp :: nat

datatype media_action = Play | Pause | Stop | Seek | Volume

record media_control_message =
  mc_roomId :: string
  mc_action :: media_action
  mc_payload :: "string option"
  mc_senderId :: "string option"
  mc_timestamp :: nat

datatype screen_share_type = SCREEN_SHARE_START | SCREEN_SHARE_STOP

record screen_share_message =
  ss_type :: screen_share_type
  ss_roomId :: string
  ss_senderId :: "string option"
  ss_timestamp :: nat

text \<open>Envelopes a client sends; the last constructor stands for any other \<open>type\<close> tag.\<close>

datatype ws_message =
    JoinRoomMessage string string
  | LeaveRoomMessage string
  | ChatMessage chat_message
  | MediaControlMessage media_control_message
  | ScreenShareMessage screen_share_message
  | HeartbeatMessage
  | UnknownMessage string

text \<open>Envelopes the server writes to a socket.\<close>

datatype out_message =
    USER_JOINED string string string nat
  | USER_LEFT string string string nat
  | ROOM_STATE string "(string \<times> string \<times> nat) list" nat
  | CHAT_MESSAGE chat_message
  | MEDIA_CONTROL media_control_message
  | SCREEN_SHARE screen_share_message
  | HEARTBEAT nat
  | ERROR string string nat

datatype log_level = LInfo | LWarn | LError | LDebug

text \<open>
  What a handler does besides changing the tables: a \<open>ws.send\<close>, a \<open>ws.ping\<close> or a
  \<open>ws.terminate\<close> on a socket, or a line handed to the logger.
\<close>

datatype effect = Send nat out_message | Log log_level string | Ping nat | Terminate nat

fun isSend :: "effect \<Rightarrow> bool" where
  "isSend (Send c m) = True"
| "isSend (Log l t) = False"
| "isSend (Ping c) = False"
| "isSend (Terminate c) = False"

definition sends :: "effect list \<Rightarrow> effect list" where
  "sends es = filter isSend es"

section \<open>Sending\<close>

definition sendMessage :: "server_state \<Rightarrow> nat \<Rightarrow> out_message \<Rightarrow> effect list" where
  "sendMessage s c message =
     (if readyState (sockets s c) = OPEN then [Send c message] else [])"

definition sendError :: "server_state \<Rightarrow> nat \<Rightarrow> string \<Rightarrow> string \<Rightarrow> nat \<Rightarrow> effect list" where
  "sendError s c code message now = sendMessage s c (ERROR code message now)"

text \<open>The body of \<open>roomUsers.forEach\<close> in \<open>broadcastToRoom\<close>, entry by entry.\<close>

fun forEachMember ::
  "server_state \<Rightarrow> out_message \<Rightarrow> string option \<Rightarrow> (string \<times> room_connection) list \<Rightarrow> effect list"
where
  "forEachMember s message excludeUserId [] = []"
| "forEachMember s message excludeUserId ((uid, connection) # rest) =
     (if Some uid \<noteq> excludeUserId \<and> readyState (sockets s (rc_ws connection)) = OPEN
      then sendMessage s (rc_ws connection) message else [])
     @ forEachMember s message excludeUserId rest"

definition broadcastToRoom ::
  "server_state \<Rightarrow> string \<Rightarrow> out_message \<Rightarrow> string option \<Rightarrow> effect list"
where
  "broadcastToRoom s rid message excludeUserId =
     (case map_of (roomConnections s) rid of
        None \<Rightarrow> []
      | Some roomUsers \<Rightarrow> forEachMember s message excludeUserId roomUsers)"

section \<open>Session handlers\<close>

text \<open>
  \<open>app.jwt.verify\<close> is the external authentication collaborator: a parameter
  \<open>verify\<close> that yields the decoded \<open>(userId, username)\<close> or \<open>None\<close> where the source
  throws.  Every \<open>new Date()\<close> of one handler run reads the clock value \<open>now\<close>.

  The guards \<open>!ws.userId\<close> and \<open>!ws.roomId\<close> hold for \<open>undefined\<close> and for the
  empty string, so a handler goes on only if the field is set and non-empty.
\<close>

definition handleJoinRoom ::
  "(string \<Rightarrow> (string \<times> string) option) \<Rightarrow> server_state \<Rightarrow> nat \<Rightarrow> string \<Rightarrow> string \<Rightarrow> nat
     \<Rightarrow> server_state \<times> effect list"
where
  "handleJoinRoom verify s c rid token now =
     (case verify token of
        None \<Rightarrow>
          (s, Log LError ''Error joining room:''
              # sendError s c ''JOIN_ROOM_FAILED'' ''Failed to join room'' now)
      | Some (uid, uname) \<Rightarrow>
          let s1 = s\<lparr>sockets := (sockets s)(c := (sockets s c)\<lparr>userId := Some uid, roomId := Some rid\<rparr>)\<rparr>;
              s2 = s1\<lparr>connections := (connections s1)(uid \<mapsto> c)\<rparr>;
              s3 = (if map_of (roomConnections s2) rid = None
                    then s2\<lparr>roomConnections := AList.update rid [] (roomConnections s2)\<rparr>
                    else s2);
              roomUsers = (case map_of (roomConnections s3) rid of None \<Rightarrow> [] | Some m \<Rightarrow> m);
              roomUsers' = AList.update uid
                 \<lparr>rc_userId = uid, rc_username = uname, rc_ws = c, rc_joinedAt = now\<rparr> roomUsers;
              s4 = s3\<lparr>roomConnections := AList.update rid roomUsers' (roomConnections s3)\<rparr>;
              joined = broadcastToRoom s4 rid (USER_JOINED rid uid uname now) (Some uid);
              currentUsers =
                 map (\<lambda>(k, conn). (rc_userId conn, rc_username conn, rc_joinedAt conn)) roomUsers';
              snapshot = sendMessage s4 c (ROOM_STATE rid currentUsers now)
          in (s4, joined @ snapshot
                  @ [Log LInfo (''User '' @ uname @ '' joined room '' @ rid)]))"

text \<open>
  \<open>handleLeaveRoom\<close> (lines 452--472) and \<open>handleDisconnection\<close> (lines 545--565)
  contain the same block: look the room up, look the user's entry up, delete it,
  broadcast \<open>USER_LEFT\<close> to the rest, drop the room when it became empty.
\<close>

definition removeRoomUser ::
  "server_state \<Rightarrow> string \<Rightarrow> string \<Rightarrow> nat \<Rightarrow> server_state \<times> effect list"
where
  "removeRoomUser s rid uid now =
     (case map_of (roomConnections s) rid of
        None \<Rightarrow> (s, [])
      | Some roomUsers \<Rightarrow>
          (case map_of roomUsers uid of
             None \<Rightarrow> (s, [])
           | Some userConnection \<Rightarrow>
               let s1 = s\<lparr>roomConnections :=
                            AList.update rid (AList.delete uid roomUsers) (roomConnections s)\<rparr>;
                   left = broadcastToRoom s1 rid
                            (USER_LEFT rid uid (rc_username userConnection) now) (Some uid);
                   s2 = (if AList.delete uid roomUsers = []
                         then s1\<lparr>roomConnections := AList.delete rid (roomConnections s1)\<rparr>
                         else s1)
               in (s2, left)))"

definition handleLeaveRoom ::
  "server_state \<Rightarrow> nat \<Rightarrow> string \<Rightarrow> nat \<Rightarrow> server_state \<times> effect list"
where
  "handleLeaveRoom s c msgRoomId now =
     (case (userId (sockets s c), roomId (sockets s c)) of
        (Some uid, Some rid) \<Rightarrow>
          if uid = [] \<or> rid = []
          then (s, sendError s c ''NOT_IN_ROOM'' ''Not currently in a room'' now)
          else
            let (s1, left) = removeRoomUser s rid uid now;
                s2 = s1\<lparr>connections := (connections s1)(uid := None)\<rparr>;
                s3 = s2\<lparr>sockets := (sockets s2)(c := (sockets s2 c)\<lparr>userId := None, roomId := None\<rparr>)\<rparr>
            in (s3, left @ [Log LInfo (''User left room '' @ msgRoomId)])
      | _ \<Rightarrow> (s, sendError s c ''NOT_IN_ROOM'' ''Not currently in a room'' now))"

definition handleChatMessage ::
  "server_state \<Rightarrow> nat \<Rightarrow> chat_message \<Rightarrow> nat \<Rightarrow> string \<Rightarrow> server_state \<times> effect list"
where
  "handleChatMessage s c message now mid =
     (case (userId (sockets s c), roomId (sockets s c)) of
        (Some uid, Some rid) \<Rightarrow>
          if uid = [] \<or> rid = []
          then (s, sendError s c ''NOT_IN_ROOM'' ''Must be in a room to send messages'' now)
          else
            let chatMessage =
                  message\<lparr>cm_id := Some mid, cm_timestamp := now, cm_senderId := Some uid\<rparr>
            in (s, broadcastToRoom s rid (CHAT_MESSAGE chatMessage) None
                   @ [Log LDebug (''Chat message sent in room '' @ rid @ '' by '' @ uid)])
      | _ \<Rightarrow> (s, sendError s c ''NOT_IN_ROOM'' ''Must be in a room to send messages'' now))"

fun action_name :: "media_action \<Rightarrow> string" where
  "action_name Play = ''play''"
| "action_name Pause = ''pause''"
| "action_name Stop = ''stop''"
| "action_name Seek = ''seek''"
| "action_name Volume = ''volume''"

definition handleMediaControl ::
  "server_state \<Rightarrow> nat \<Rightarrow> media_control_message \<Rightarrow> nat \<Rightarrow> server_state \<times> effect list"
where
  "handleMediaControl s c message now =
     (case (userId (sockets s c), roomId (sockets s c)) of
        (Some uid, Some rid) \<Rightarrow>
          if uid = [] \<or> rid = []
          then (s, sendError s c ''NOT_IN_ROOM'' ''Must be in a room to control media'' now)
          else
            let controlMessage = message\<lparr>mc_senderId := Some uid, mc_timestamp := now\<rparr>
            in (s, broadcastToRoom s rid (MEDIA_CONTROL controlMessage) (Some uid)
                   @ [Log LDebug (''Media control '' @ action_name (mc_action message)
                                   @ '' sent in room '' @ rid @ '' by '' @ uid)])
      | _ \<Rightarrow> (s, sendError s c ''NOT_IN_ROOM'' ''Must be in a room to control media'' now))"

fun type_name :: "screen_share_type \<Rightarrow> string" where
  "type_name SCREEN_SHARE_START = ''screen_share_start''"
| "type_name SCREEN_SHARE_STOP = ''screen_share_stop''"

definition handleScreenShare ::
  "server_state \<Rightarrow> nat \<Rightarrow> screen_share_message \<Rightarrow> nat \<Rightarrow> server_state \<times> effect list"
where
  "handleScreenShare s c message now =
     (case (userId (sockets s c), roomId (sockets s c)) of
        (Some uid, Some rid) \<Rightarrow>
          if uid = [] \<or> rid = []
          then (s, sendError s c ''NOT_IN_ROOM'' ''Must be in a room to share screen'' now)
          else
            let shareMessage = message\<lparr>ss_senderId := Some uid, ss_timestamp := now\<rparr>
            in (s, broadcastToRoom s rid (SCREEN_SHARE shareMessage) (Some uid)
                   @ [Log LInfo (''Screen share '' @ type_name (ss_type message)
                                  @ '' by '' @ uid @ '' in room '' @ rid)])
      | _ \<Rightarrow> (s, sendError s c ''NOT_IN_ROOM'' ''Must be in a room to share screen'' now))"

definition handleDisconnection ::
  "server_state \<Rightarrow> nat \<Rightarrow> nat \<Rightarrow> server_state \<times> effect list"
where
  "handleDisconnection s c now =
     (case userId (sockets s c) of
        None \<Rightarrow> (s, [])
      | Some uid \<Rightarrow>
          if uid = [] then (s, [])
          else
            let (s1, left) =
                  (case roomId (sockets s c) of
                     None \<Rightarrow> (s, [])
                   | Some rid \<Rightarrow> if rid = [] then (s, []) else removeRoomUser s rid uid now);
                s2 = s1\<lparr>connections := (connections s1)(uid := None)\<rparr>
            in (s2, left @ [Log LInfo (''User '' @ uid @ '' disconnected'')]))"

text \<open>
  The body of the heartbeat interval for one client socket: a socket that has not
  answered the previous ping goes through the disconnect routine and is terminated,
  any other socket is marked and pinged.
\<close>

definition heartbeat :: "server_state \<Rightarrow> nat \<Rightarrow> nat \<Rightarrow> server_state \<times> effect list" where
  "heartbeat s c now =
     (if isAlive (sockets s c) = False
      then (let (s1, es) = handleDisconnection s c now in (s1, es @ [Terminate c]))
      else (s\<lparr>sockets := (sockets s)(c := (sockets s c)\<lparr>isAlive := False\<rparr>)\<rparr>, [Ping c]))"

fun handleMessage ::
  "(string \<Rightarrow> (string \<times> string) option) \<Rightarrow> server_state \<Rightarrow> nat \<Rightarrow> ws_message \<Rightarrow> nat \<Rightarrow> string
     \<Rightarrow> server_state \<times> effect list"
where
  "handleMessage verify s c (JoinRoomMessage rid token) now mid =
     handleJoinRoom verify s c rid token now"
| "handleMessage verify s c (LeaveRoomMessage rid) now mid = handleLeaveRoom s c rid now"
| "handleMessage verify s c (ChatMessage m) now mid = handleChatMessage s c m now mid"
| "handleMessage verify s c (MediaControlMessage m) now mid = handleMediaControl s c m now"
| "handleMessage verify s c (ScreenShareMessage m) now mid = handleScreenShare s c m now"
| "handleMessage verify s c HeartbeatMessage now mid = (s, sendMessage s c (HEARTBEAT now))"
| "handleMessage verify s c (UnknownMessage t) now mid =
     (s, Log LWarn ''Unknown message type:''
         # sendError s c ''UNKNOWN_MESSAGE_TYPE'' ''Unknown message type'' now)"

section \<open>The server as a transition system\<close>

text \<open>
  Each handler runs to completion before the next event is taken: the only \<open>await\<close> in
  the handlers is the credential check at the head of \<open>handleJoinRoom\<close>, before any
  state is touched.  Apart from that check no modelled operation throws, so the
  \<open>catch\<close> of \<open>handleMessage\<close> is never entered.
\<close>

text \<open>
  An event is a decoded frame arriving on a socket (with the clock value and the
  message id drawn while it is handled), a run of the disconnect routine from the
  socket's \<open>close\<close> or \<open>error\<close> event, a \<open>pong\<close> from the socket, the heartbeat
  interval reaching the socket, or a change of the socket's transport state.
\<close>

datatype event =
    Message nat ws_message nat string
  | Disconnect nat nat
  | Pong nat
  | Heartbeat nat nat
  | Transport nat ready_state

fun step ::
  "(string \<Rightarrow> (string \<times> string) option) \<Rightarrow> server_state \<Rightarrow> event \<Rightarrow> server_state \<times> effect list"
where
  "step verify s (Message c m now mid) = handleMessage verify s c m now mid"
| "step verify s (Disconnect c now) = handleDisconnection s c now"
| "step verify s (Pong c) =
     (s\<lparr>sockets := (sockets s)(c := (sockets s c)\<lparr>isAlive := True\<rparr>)\<rparr>, [])"
| "step verify s (Heartbeat c now) = heartbeat s c now"
| "step verify s (Transport c rs) =
     (s\<lparr>sockets := (sockets s)(c := (sockets s c)\<lparr>readyState := rs\<rparr>)\<rparr>, [])"

fun run ::
  "(string \<Rightarrow> (string \<times> string) option) \<Rightarrow> server_state \<Rightarrow> event list \<Rightarrow> server_state"
where
  "run verify s [] = s"
| "run verify s (e # es) = run verify (fst (step verify s e)) es"

text \<open>
  At start both tables are empty, and every socket is as the \<open>connection\<close> handler
  leaves a new one: open, marked alive, bound to no user and no room.
\<close>

definition init_state :: server_state where
  "init_state =
     \<lparr>sockets = (\<lambda>c. \<lparr>userId = None, roomId = None, isAlive = True, readyState = OPEN\<rparr>),
      connections = Map.empty,
      roomConnections = []\<rparr>"

text \<open>The member list of a room, empty for a room that has no table entry.\<close>

definition members :: "server_state \<Rightarrow> string \<Rightarrow> (string \<times> room_connection) list" where
  "members s rid = (case map_of (roomConnections s) rid of None \<Rightarrow> [] | Some m \<Rightarrow> m)"

definition memberIds :: "server_state \<Rightarrow> string \<Rightarrow> string set" where
  "memberIds s rid = fst ` set (members s rid)"

section \<open>Notions used to state the properties\<close>

text \<open>
  The identity and room a socket is bound to in the sense of the handlers' guard
  \<open>!ws.userId || !ws.roomId\<close>: both fields set and non-empty.
\<close>

definition binding :: "server_state \<Rightarrow> nat \<Rightarrow> (string \<times> string) option" where
  "binding s c =
     (case userId (sockets s c) of
        None \<Rightarrow> None
      | Some u \<Rightarrow>
          (case roomId (sockets s c) of
             None \<Rightarrow> None
           | Some r \<Rightarrow> if u = [] \<or> r = [] then None else Some (u, r)))"

text \<open>
  A member entry that a broadcast writes to: its key is not the excluded user and the
  socket it refers to is open.
\<close>

definition deliverable :: "server_state \<Rightarrow> string option \<Rightarrow> string \<times> room_connection \<Rightarrow> bool" where
  "deliverable s excludeUserId p =
     (Some (fst p) \<noteq> excludeUserId \<and> readyState (sockets s (rc_ws (snd p))) = OPEN)"

definition rooms_nonempty :: "server_state \<Rightarrow> bool" where
  "rooms_nonempty s = list_all (\<lambda>p. snd p \<noteq> []) (roomConnections s)"

definition keys_distinct :: "server_state \<Rightarrow> bool" where
  "keys_distinct s =
     (distinct (map fst (roomConnections s))
      \<and> list_all (\<lambda>p. distinct (map fst (snd p))) (roomConnections s))"

fun senderId_of :: "out_message \<Rightarrow> string option" where
  "senderId_of (CHAT_MESSAGE m) = cm_senderId m"
| "senderId_of (MEDIA_CONTROL m) = mc_senderId m"
| "senderId_of (SCREEN_SHARE m) = ss_senderId m"
| "senderId_of m = None"

fun timestamp_of :: "out_message \<Rightarrow> nat" where
  "timestamp_of (USER_JOINED r u n t) = t"
| "timestamp_of (USER_LEFT r u n t) = t"
| "timestamp_of (ROOM_STATE r us t) = t"
| "timestamp_of (CHAT_MESSAGE m) = cm_timestamp m"
| "timestamp_of (MEDIA_CONTROL m) = mc_timestamp m"
| "timestamp_of (SCREEN_SHARE m) = ss_timestamp m"
| "timestamp_of (HEARTBEAT t) = t"
| "timestamp_of (ERROR c m t) = t"

subsection \<open>Membership as a set of (room, user) pairs\<close>

text \<open>
  Two abstract accounts of membership over the same events.  Both keep, per socket, the
  identity and room of its last successful join and whether it answered the last ping,
  and a set of (room, user) pairs.  A socket is evicted when the heartbeat interval
  reaches it and it has not answered.

  \<open>claimed_step\<close> follows the specification's wording: a user is a member of a room
  from a successful join until the user leaves that room or is disconnected or evicted;
  a socket that left or was disconnected is no longer bound.

  \<open>recorded_step\<close> is the account the handlers implement: leave and disconnect take
  the bound user out of the bound room only, both require a non-empty user and room, and
  the disconnect routine leaves the socket's bindings in place.
\<close>

record spec_state =
  sp_binding :: "nat \<Rightarrow> (string \<times> string) option"
  sp_alive :: "nat \<Rightarrow> bool"
  sp_members :: "(string \<times> string) set"

definition init_spec :: spec_state where
  "init_spec = \<lparr>sp_binding = (\<lambda>c. None), sp_alive = (\<lambda>c. True), sp_members = {}\<rparr>"

definition claimed_disconnect :: "spec_state \<Rightarrow> nat \<Rightarrow> spec_state" where
  "claimed_disconnect t c =
     (case sp_binding t c of
        None \<Rightarrow> t
      | Some (uid, rid) \<Rightarrow>
          t\<lparr>sp_binding := (sp_binding t)(c := None),
            sp_members := Set.filter (\<lambda>p. snd p \<noteq> uid) (sp_members t)\<rparr>)"

definition recorded_disconnect :: "spec_state \<Rightarrow> nat \<Rightarrow> spec_state" where
  "recorded_disconnect t c =
     (case sp_binding t c of
        None \<Rightarrow> t
      | Some (uid, rid) \<Rightarrow>
          if uid = [] \<or> rid = [] then t
          else t\<lparr>sp_members := sp_members t - {(rid, uid)}\<rparr>)"

fun claimed_step ::
  "(string \<Rightarrow> (string \<times> string) option) \<Rightarrow> spec_state \<Rightarrow> event \<Rightarrow> spec_state"
where
  "claimed_step verify t (Message c (JoinRoomMessage rid token) now mid) =
     (case verify token of
        None \<Rightarrow> t
      | Some (uid, uname) \<Rightarrow>
          t\<lparr>sp_binding := (sp_binding t)(c \<mapsto> (uid, rid)),
            sp_members := insert (rid, uid) (sp_members t)\<rparr>)"
| "claimed_step verify t (Message c (LeaveRoomMessage r) now mid) =
     (case sp_binding t c of
        None \<Rightarrow> t
      | Some (uid, rid) \<Rightarrow>
          t\<lparr>sp_binding := (sp_binding t)(c := None),
            sp_members := sp_members t - {(rid, uid)}\<rparr>)"
| "claimed_step verify t (Disconnect c now) = claimed_disconnect t c"
| "claimed_step verify t (Pong c) = t\<lparr>sp_alive := (sp_alive t)(c := True)\<rparr>"
| "claimed_step verify t (Heartbeat c now) =
     (if sp_alive t c then t\<lparr>sp_alive := (sp_alive t)(c := False)\<rparr>
      else claimed_disconnect t c)"
| "claimed_step verify t ev = t"

fun recorded_step ::
  "(string \<Rightarrow> (string \<times> string) option) \<Rightarrow> spec_state \<Rightarrow> event \<Rightarrow> spec_state"
where
  "recorded_step verify t (Message c (JoinRoomMessage rid token) now mid) =
     (case verify token of
        None \<Rightarrow> t
      | Some (uid, uname) \<Rightarrow>
          t\<lparr>sp_binding := (sp_binding t)(c \<mapsto> (uid, rid)),
            sp_members := insert (rid, uid) (sp_members t)\<rparr>)"
| "recorded_step verify t (Message c (LeaveRoomMessage r) now mid) =
     (case sp_binding t c of
        None \<Rightarrow> t
      | Some (uid, rid) \<Rightarrow>
          if uid = [] \<or> rid = [] then t
          else t\<lparr>sp_binding := (sp_binding t)(c := None),
                 sp_members := sp_members t - {(rid, uid)}\<rparr>)"
| "recorded_step verify t (Disconnect c now) = recorded_disconnect t c"
| "recorded_step verify t (Pong c) = t\<lparr>sp_alive := (sp_alive t)(c := True)\<rparr>"
| "recorded_step verify t (Heartbeat c now) =
     (if sp_alive t c then t\<lparr>sp_alive := (sp_alive t)(c := False)\<rparr>
      else recorded_disconnect t c)"
| "recorded_step verify t ev = t"

fun claimed_run ::
  "(string \<Rightarrow> (string \<times> string) option) \<Rightarrow> spec_state \<Rightarrow> event list \<Rightarrow> spec_state"
where
  "claimed_run verify t [] = t"
| "claimed_run verify t (e # es) = claimed_run verify (claimed_step verify t e) es"

fun recorded_run ::
  "(string \<Rightarrow> (string \<times> string) option) \<Rightarrow> spec_state \<Rightarrow> event list \<Rightarrow> spec_state"
where
  "recorded_run verify t [] = t"
| "recorded_run verify t (e # es) = recorded_run verify (recorded_step verify t e) es"

definition room_users :: "spec_state \<Rightarrow> string \<Rightarrow> string set" where
  "room_users t rid = snd ` Set.filter (\<lambda>p. fst p = rid) (sp_members t)"

text \<open>
  The relation between a server state and an abstract state: every socket carries the
  identity, room and liveness flag of the abstract state, and the abstract pairs are the
  keys of the member maps.
\<close>

definition coupled :: "server_state \<Rightarrow> spec_state \<Rightarrow> bool" where
  "coupled s t =
     ((\<forall>c. userId (sockets s c) = map_option fst (sp_binding t c)
           \<and> roomId (sockets s c) = map_option snd (sp_binding t c)
           \<and> isAlive (sockets s c) = sp_alive t c)
      \<and> (\<forall>r u. ((r, u) \<in> sp_members t) = (u \<in> memberIds s r)))"

subsection \<open>Clients that follow the session protocol\<close>

text \<open>
  The discipline under which one room per user is kept.  It constrains the order of
  events only through the registry and the socket fields, never through the room table:
  a join that succeeds is for a user id that no socket is registered under, and names a
  non-empty room; a leave or a disconnect cleanup (from a close or error event or from
  the heartbeat) is handled on a socket only while no other socket is registered under
  the user id the socket carries.
\<close>

definition owner_ok :: "server_state \<Rightarrow> nat \<Rightarrow> bool" where
  "owner_ok s c =
     (case userId (sockets s c) of
        None \<Rightarrow> True
      | Some u \<Rightarrow> connections s u = None \<or> connections s u = Some c)"

fun orderly ::
  "(string \<Rightarrow> (string \<times> string) option) \<Rightarrow> server_state \<Rightarrow> event \<Rightarrow> bool"
where
  "orderly verify s (Message c (JoinRoomMessage rid token) now mid) =
     (case verify token of
        None \<Rightarrow> True
      | Some (uid, uname) \<Rightarrow>
          rid \<noteq> [] \<and> connections s uid = None)"
| "orderly verify s (Message c (LeaveRoomMessage r) now mid) = owner_ok s c"
| "orderly verify s (Disconnect c now) = owner_ok s c"
| "orderly verify s (Heartbeat c now) = (isAlive (sockets s c) \<or> owner_ok s c)"
| "orderly verify s ev = True"

fun orderly_run ::
  "(string \<Rightarrow> (string \<times> string) option) \<Rightarrow> server_state \<Rightarrow> event list \<Rightarrow> bool"
where
  "orderly_run verify s [] = True"
| "orderly_run verify s (e # es) =
     (orderly verify s e \<and> orderly_run verify (fst (step verify s e)) es)"

text \<open>
  Every member entry is in a room with a non-empty id and belongs to the socket that is
  registered for its user; if that socket still carries the user's id, it carries the
  entry's room.
\<close>

definition owned :: "server_state \<Rightarrow> bool" where
  "owned s =
     (\<forall>r u e. map_of (members s r) u = Some e \<longrightarrow>
        connections s u = Some (rc_ws e)
        \<and> r \<noteq> []
        \<and> (userId (sockets s (rc_ws e)) = Some u \<longrightarrow> roomId (sockets s (rc_ws e)) = Some r))"

subsection \<open>A concrete authentication collaborator\<close>

definition demo_verify :: "string \<Rightarrow> (string \<times> string) option" where
  "demo_verify token =
     (if token = ''token-A'' then Some (''A'', ''Alice'')
      else if token = ''token-B'' then Some (''B'', ''Bob'')
      else None)"

definition join_ev :: "nat \<Rightarrow> string \<Rightarrow> string \<Rightarrow> nat \<Rightarrow> event" where
  "join_ev c rid token now = Message c (JoinRoomMessage rid token) now ''id''"

section \<open>Properties\<close>

subsection \<open>Broadcast\<close>

lemma forEachMember_eq:
  "forEachMember s m ex xs = map (\<lambda>p. Send (rc_ws (snd p)) m) (filter (deliverable s ex) xs)"
  by (induction xs) (auto simp: sendMessage_def deliverable_def)

lemma broadcastToRoom_eq:
  "broadcastToRoom s r m ex
     = map (\<lambda>p. Send (rc_ws (snd p)) m) (filter (deliverable s ex) (members s r))"
  by (simp add: broadcastToRoom_def members_def forEachMember_eq split: option.splits)

lemma sends_broadcastToRoom [simp]: "sends (broadcastToRoom s r m ex) = broadcastToRoom s r m ex"
  by (simp add: broadcastToRoom_eq sends_def filter_map o_def)

lemma sends_sendMessage [simp]: "sends (sendMessage s c m) = sendMessage s c m"
  by (simp add: sendMessage_def sends_def)

lemma sends_append [simp]: "sends (xs @ ys) = sends xs @ sends ys"
  by (simp add: sends_def)

lemma sends_Log [simp]: "sends (Log l t # xs) = sends xs" "sends [] = []"
  by (simp_all add: sends_def)

subsection \<open>Frame of the record updates\<close>

lemma members_upd [simp]:
  "members (s\<lparr>connections := x\<rparr>) = members s"
  "members (s\<lparr>sockets := y\<rparr>) = members s"
  by (simp_all add: members_def fun_eq_iff)

subsection \<open>The shared removal block\<close>

lemma delete_absent: "map_of m u = None \<Longrightarrow> AList.delete u m = m"
  by (simp add: map_of_eq_None_iff)

lemma rooms_removeRoomUser:
  "map_of (roomConnections (fst (removeRoomUser s r u now))) =
     (case map_of (roomConnections s) r of
        None \<Rightarrow> map_of (roomConnections s)
      | Some m \<Rightarrow>
          (case map_of m u of
             None \<Rightarrow> map_of (roomConnections s)
           | Some e \<Rightarrow>
               if AList.delete u m = [] then (map_of (roomConnections s))(r := None)
               else (map_of (roomConnections s))(r \<mapsto> AList.delete u m)))"
  by (simp add: removeRoomUser_def Let_def update_conv' delete_conv' split: option.splits)

lemma members_removeRoomUser:
  "members (fst (removeRoomUser s r u now)) r' =
     (if r' = r then AList.delete u (members s r) else members s r')"
  by (simp add: members_def rooms_removeRoomUser delete_absent split: option.splits)

lemma sockets_removeRoomUser [simp]: "sockets (fst (removeRoomUser s r u now)) = sockets s"
  by (simp add: removeRoomUser_def Let_def split: option.splits)

lemma connections_removeRoomUser [simp]:
  "connections (fst (removeRoomUser s r u now)) = connections s"
  by (simp add: removeRoomUser_def Let_def split: option.splits)

lemma removeRoomUser_absent:
  "map_of (members s r) u = None \<Longrightarrow> removeRoomUser s r u now = (s, [])"
  by (auto simp: removeRoomUser_def members_def split: option.splits)

lemma deliverable_rooms_upd [simp]:
  "deliverable (s\<lparr>roomConnections := x\<rparr>) = deliverable s"
  "deliverable (s\<lparr>connections := y\<rparr>) = deliverable s"
  by (simp_all add: deliverable_def fun_eq_iff)

lemma effects_removeRoomUser:
  "map_of (members s r) u = Some e \<Longrightarrow>
   snd (removeRoomUser s r u now)
     = map (\<lambda>p. Send (rc_ws (snd p)) (USER_LEFT r u (rc_username e) now))
         (filter (deliverable s (Some u)) (AList.delete u (members s r)))"
  by (auto simp: removeRoomUser_def members_def Let_def broadcastToRoom_eq update_conv'
           split: option.splits)

subsection \<open>Handlers by case of the binding\<close>

lemma handleLeaveRoom_unbound:
  "binding s c = None \<Longrightarrow>
   handleLeaveRoom s c mr now = (s, sendError s c ''NOT_IN_ROOM'' ''Not currently in a room'' now)"
  by (auto simp: handleLeaveRoom_def binding_def split: option.splits if_splits)

lemma handleLeaveRoom_bound:
  "binding s c = Some (u, r) \<Longrightarrow>
   handleLeaveRoom s c mr now =
     ((fst (removeRoomUser s r u now))
        \<lparr>connections := (connections s)(u := None),
         sockets := (sockets s)(c := (sockets s c)\<lparr>userId := None, roomId := None\<rparr>)\<rparr>,
      snd (removeRoomUser s r u now) @ [Log LInfo (''User left room '' @ mr)])"
  by (auto simp: handleLeaveRoom_def binding_def Let_def split_beta
           split: option.splits if_splits)

lemma handleDisconnection_falsy:
  "userId (sockets s c) = None \<or> userId (sockets s c) = Some [] \<Longrightarrow>
   handleDisconnection s c now = (s, [])"
  by (auto simp: handleDisconnection_def split: option.splits)

lemma handleDisconnection_noroom:
  "userId (sockets s c) = Some u \<Longrightarrow> u \<noteq> [] \<Longrightarrow> binding s c = None \<Longrightarrow>
   handleDisconnection s c now =
     (s\<lparr>connections := (connections s)(u := None)\<rparr>,
      [Log LInfo (''User '' @ u @ '' disconnected'')])"
  by (auto simp: handleDisconnection_def binding_def Let_def split: option.splits if_splits)

lemma handleDisconnection_bound:
  "binding s c = Some (u, r) \<Longrightarrow>
   handleDisconnection s c now =
     ((fst (removeRoomUser s r u now))\<lparr>connections := (connections s)(u := None)\<rparr>,
      snd (removeRoomUser s r u now) @ [Log LInfo (''User '' @ u @ '' disconnected'')])"
  by (auto simp: handleDisconnection_def binding_def Let_def split_beta
           split: option.splits if_splits)

lemma members_handleLeaveRoom:
  "members (fst (handleLeaveRoom s c mr now)) r' =
     (case binding s c of
        None \<Rightarrow> members s r'
      | Some (u, r) \<Rightarrow> if r' = r then AList.delete u (members s r) else members s r')"
  by (auto simp: handleLeaveRoom_unbound handleLeaveRoom_bound members_removeRoomUser
           split: option.splits)

lemma members_handleDisconnection:
  "members (fst (handleDisconnection s c now)) r' =
     (case binding s c of
        None \<Rightarrow> members s r'
      | Some (u, r) \<Rightarrow> if r' = r then AList.delete u (members s r) else members s r')"
proof (cases "binding s c")
  case None
  show ?thesis
  proof (cases "userId (sockets s c) = None \<or> userId (sockets s c) = Some []")
    case True
    with None show ?thesis by (simp add: handleDisconnection_falsy)
  next
    case False
    then obtain u where "userId (sockets s c) = Some u" "u \<noteq> []"
      by auto
    with None show ?thesis by (simp add: handleDisconnection_noroom)
  qed
next
  case (Some p)
  then show ?thesis
    by (cases p) (simp add: handleDisconnection_bound members_removeRoomUser)
qed

lemma sockets_handleDisconnection [simp]:
  "sockets (fst (handleDisconnection s c now)) = sockets s"
  by (auto simp: handleDisconnection_def Let_def split_beta split: option.splits)

lemma state_handleChatMessage [simp]: "fst (handleChatMessage s c m now mid) = s"
  by (auto simp: handleChatMessage_def Let_def split: option.splits)

lemma state_handleMediaControl [simp]: "fst (handleMediaControl s c m now) = s"
  by (auto simp: handleMediaControl_def Let_def split: option.splits)

lemma state_handleScreenShare [simp]: "fst (handleScreenShare s c m now) = s"
  by (auto simp: handleScreenShare_def Let_def split: option.splits)

lemma heartbeat_alive:
  "isAlive (sockets s c) \<Longrightarrow>
   heartbeat s c now
     = (s\<lparr>sockets := (sockets s)(c := (sockets s c)\<lparr>isAlive := False\<rparr>)\<rparr>, [Ping c])"
  by (simp add: heartbeat_def)

lemma heartbeat_dead:
  "\<not> isAlive (sockets s c) \<Longrightarrow>
   heartbeat s c now
     = (fst (handleDisconnection s c now), snd (handleDisconnection s c now) @ [Terminate c])"
  by (simp add: heartbeat_def split_beta)

subsection \<open>Join\<close>

lemma handleJoinRoom_rejected:
  "verify token = None \<Longrightarrow>
   handleJoinRoom verify s c rid token now =
     (s, Log LError ''Error joining room:''
         # sendError s c ''JOIN_ROOM_FAILED'' ''Failed to join room'' now)"
  by (simp add: handleJoinRoom_def)

lemma members_handleJoinRoom:
  "verify token = Some (u, n) \<Longrightarrow>
   members (fst (handleJoinRoom verify s c rid token now)) r' =
     (if r' = rid
      then AList.update u \<lparr>rc_userId = u, rc_username = n, rc_ws = c, rc_joinedAt = now\<rparr>
             (members s rid)
      else members s r')"
  by (auto simp: handleJoinRoom_def members_def Let_def update_conv' split: option.splits)

lemma sockets_handleJoinRoom:
  "verify token = Some (u, n) \<Longrightarrow>
   sockets (fst (handleJoinRoom verify s c rid token now))
     = (sockets s)(c := (sockets s c)\<lparr>userId := Some u, roomId := Some rid\<rparr>)"
  by (auto simp: handleJoinRoom_def Let_def split: option.splits)

subsection \<open>Tables after a join and after the removal block\<close>

lemma table_handleJoinRoom:
  "verify token = Some (u, n) \<Longrightarrow>
   roomConnections (fst (handleJoinRoom verify s c rid token now))
     = AList.update rid
         (AList.update u \<lparr>rc_userId = u, rc_username = n, rc_ws = c, rc_joinedAt = now\<rparr>
            (members s rid))
         (roomConnections s)"
  by (auto simp: handleJoinRoom_def members_def Let_def update_conv' split: option.splits)

lemma table_removeRoomUser:
  "roomConnections (fst (removeRoomUser s r u now)) =
     (case map_of (members s r) u of
        None \<Rightarrow> roomConnections s
      | Some e \<Rightarrow>
          if AList.delete u (members s r) = [] then AList.delete r (roomConnections s)
          else AList.update r (AList.delete u (members s r)) (roomConnections s))"
  by (auto simp: removeRoomUser_def members_def Let_def delete_update_same
           split: option.splits)

lemma list_all_update:
  "list_all P al \<Longrightarrow> P (k, v) \<Longrightarrow> list_all P (AList.update k v al)"
  by (induction al) auto

lemma list_all_delete: "list_all P al \<Longrightarrow> list_all P (AList.delete k al)"
  by (simp add: AList.delete_eq list_all_iff)

lemma list_all_map_of:
  "list_all P al \<Longrightarrow> map_of al k = Some v \<Longrightarrow> P (k, v)"
  by (auto simp: list_all_iff dest: map_of_SomeD)

subsection \<open>No empty room is kept\<close>

lemma rooms_nonempty_upd [simp]:
  "rooms_nonempty (s\<lparr>connections := x\<rparr>) = rooms_nonempty s"
  "rooms_nonempty (s\<lparr>sockets := y\<rparr>) = rooms_nonempty s"
  by (simp_all add: rooms_nonempty_def)

lemma rooms_nonempty_removeRoomUser:
  "rooms_nonempty s \<Longrightarrow> rooms_nonempty (fst (removeRoomUser s r u now))"
  by (auto simp: rooms_nonempty_def table_removeRoomUser list_all_update list_all_delete
           split: option.splits)

lemma rooms_nonempty_handleJoinRoom:
  "rooms_nonempty s \<Longrightarrow> rooms_nonempty (fst (handleJoinRoom verify s c rid token now))"
proof (cases "verify token")
  case None
  assume "rooms_nonempty s"
  with None show ?thesis by (simp add: handleJoinRoom_rejected)
next
  case (Some p)
  assume "rooms_nonempty s"
  with Some show ?thesis
    by (cases p) (simp add: rooms_nonempty_def table_handleJoinRoom list_all_update)
qed

lemma rooms_nonempty_handleLeaveRoom:
  "rooms_nonempty s \<Longrightarrow> rooms_nonempty (fst (handleLeaveRoom s c mr now))"
  by (cases "binding s c")
     (auto simp: handleLeaveRoom_unbound handleLeaveRoom_bound
           intro: rooms_nonempty_removeRoomUser)

lemma rooms_nonempty_handleDisconnection:
  "rooms_nonempty s \<Longrightarrow> rooms_nonempty (fst (handleDisconnection s c now))"
  by (auto simp: handleDisconnection_def Let_def split_beta rooms_nonempty_removeRoomUser
           split: option.splits)

lemma rooms_nonempty_step:
  "rooms_nonempty s \<Longrightarrow> rooms_nonempty (fst (step verify s ev))"
proof (cases ev)
  case (Message c m now mid)
  assume "rooms_nonempty s"
  with Message show ?thesis
    by (cases m) (simp_all add: rooms_nonempty_handleJoinRoom rooms_nonempty_handleLeaveRoom)
next
  case (Disconnect c now)
  assume "rooms_nonempty s"
  with Disconnect show ?thesis by (simp add: rooms_nonempty_handleDisconnection)
next
  case (Pong c)
  assume "rooms_nonempty s"
  with Pong show ?thesis by simp
next
  case (Heartbeat c now)
  assume "rooms_nonempty s"
  with Heartbeat show ?thesis
    by (cases "isAlive (sockets s c)")
       (simp_all add: heartbeat_alive heartbeat_dead rooms_nonempty_handleDisconnection)
next
  case (Transport c rs)
  assume "rooms_nonempty s"
  with Transport show ?thesis by simp
qed

lemma rooms_nonempty_run:
  "rooms_nonempty s \<Longrightarrow> rooms_nonempty (run verify s evs)"
  by (induction evs arbitrary: s) (simp_all add: rooms_nonempty_step)

lemma rooms_nonempty_init: "rooms_nonempty init_state"
  by (simp add: rooms_nonempty_def init_state_def)

lemma present_iff_members:
  assumes "rooms_nonempty s"
  shows "(rid \<in> fst ` set (roomConnections s)) = (members s rid \<noteq> [])"
proof (cases "map_of (roomConnections s) rid")
  case None
  then have "rid \<notin> fst ` set (roomConnections s)"
    by (simp add: map_of_eq_None_iff)
  with None show ?thesis by (simp add: members_def)
next
  case (Some m)
  with assms have "m \<noteq> []"
    unfolding rooms_nonempty_def by (auto dest: list_all_map_of)
  moreover from Some have "rid \<in> fst ` set (roomConnections s)"
    by (metis map_of_eq_None_iff option.distinct(1))
  ultimately show ?thesis using Some by (simp add: members_def)
qed

lemma sole_member_leaves:
  assumes "binding s c = Some (u, rid)" and "members s rid = [(u, e)]"
  shows "rid \<notin> fst ` set (roomConnections (fst (handleLeaveRoom s c mr now)))"
  using assms by (simp add: handleLeaveRoom_bound table_removeRoomUser delete_notin_dom)

lemma sole_member_disconnects:
  assumes "binding s c = Some (u, rid)" and "members s rid = [(u, e)]"
  shows "rid \<notin> fst ` set (roomConnections (fst (handleDisconnection s c now)))"
  using assms by (simp add: handleDisconnection_bound table_removeRoomUser delete_notin_dom)

text \<open>
  C2.  In every state reached from the initial state by any events, a room id is a key
  of the room table exactly when its member list is non-empty.  In particular, when the
  only member of a room leaves (or its socket is disconnected), the room id is no longer
  a key of the table and later queries see an empty room.
\<close>

theorem room_present_iff_nonempty:
  "((rid \<in> fst ` set (roomConnections (run verify init_state evs)))
      = (members (run verify init_state evs) rid \<noteq> []))
   \<and> (binding (run verify init_state evs) c = Some (u, rid)
        \<and> members (run verify init_state evs) rid = [(u, e)]
      \<longrightarrow> rid \<notin> fst ` set (roomConnections
                (fst (handleLeaveRoom (run verify init_state evs) c mr now)))
          \<and> members (fst (handleLeaveRoom (run verify init_state evs) c mr now)) rid = []
          \<and> rid \<notin> fst ` set (roomConnections
                (fst (handleDisconnection (run verify init_state evs) c now)))
          \<and> members (fst (handleDisconnection (run verify init_state evs) c now)) rid = [])"
proof -
  let ?s = "run verify init_state evs"
  have ne: "rooms_nonempty ?s"
    by (rule rooms_nonempty_run [OF rooms_nonempty_init])
  show ?thesis
    by (simp add: present_iff_members [OF ne] sole_member_leaves sole_member_disconnects
          members_handleLeaveRoom members_handleDisconnection)
qed

lemmas run_eval = join_ev_def
  handleJoinRoom_def handleLeaveRoom_def handleDisconnection_def
  removeRoomUser_def broadcastToRoom_def sendMessage_def sendError_def demo_verify_def
  init_state_def Let_def members_def binding_def
  handleChatMessage_def handleMediaControl_def handleScreenShare_def

text \<open>A run in which Alice joins \<open>r1\<close> alone and then leaves.\<close>

theorem room_present_iff_nonempty_witness:
  "binding (run demo_verify init_state [join_ev 1 ''r1'' ''token-A'' 10]) 1 = Some (''A'', ''r1'')
   \<and> members (run demo_verify init_state [join_ev 1 ''r1'' ''token-A'' 10]) ''r1''
       = [(''A'', \<lparr>rc_userId = ''A'', rc_username = ''Alice'', rc_ws = 1, rc_joinedAt = 10\<rparr>)]
   \<and> ''r1'' \<in> fst ` set (roomConnections (run demo_verify init_state [join_ev 1 ''r1'' ''token-A'' 10]))
   \<and> ''r1'' \<notin> fst ` set (roomConnections (fst (handleLeaveRoom
        (run demo_verify init_state [join_ev 1 ''r1'' ''token-A'' 10]) 1 ''other'' 20)))"
proof -
  let ?s = "run demo_verify init_state [join_ev 1 ''r1'' ''token-A'' 10]"
  have b: "binding ?s 1 = Some (''A'', ''r1'')"
    by (simp add: run_eval)
  have m: "members ?s ''r1''
     = [(''A'', \<lparr>rc_userId = ''A'', rc_username = ''Alice'', rc_ws = 1, rc_joinedAt = 10\<rparr>)]"
    by (simp add: run_eval)
  from room_present_iff_nonempty [of "''r1''" demo_verify "[join_ev 1 ''r1'' ''token-A'' 10]"
      1 "''A''" "\<lparr>rc_userId = ''A'', rc_username = ''Alice'', rc_ws = 1, rc_joinedAt = 10\<rparr>"
      "''other''" 20] b m
  show ?thesis by simp
qed

subsection \<open>A join whose credential is rejected\<close>

text \<open>
  C8 as stated fails: the error envelope is written only if the socket is open.  Here
  socket 1 is closing when its join with an unknown token is handled, and nothing is sent.
\<close>

theorem join_rejected_counterexample:
  "demo_verify ''bad'' = None
   \<and> sends (snd (handleJoinRoom demo_verify
        (run demo_verify init_state [Transport 1 CLOSING]) 1 ''r1'' ''bad'' 20)) = []"
  by (simp add: run_eval sends_def)

text \<open>
  C8, amended.  For every join whose credential fails verification, no state changes:
  the registry, the room table and every socket's identity and room are as before, so the
  socket may retry.  The originating socket is sent one \<open>ERROR\<close> envelope with code
  \<open>JOIN_ROOM_FAILED\<close> if its transport is open, and nothing otherwise; no other socket
  is sent anything.
\<close>

theorem join_rejected_no_mutation:
  "verify token = None \<Longrightarrow>
   fst (handleJoinRoom verify s c rid token now) = s
   \<and> sends (snd (handleJoinRoom verify s c rid token now))
       = (if readyState (sockets s c) = OPEN
          then [Send c (ERROR ''JOIN_ROOM_FAILED'' ''Failed to join room'' now)] else [])"
  by (simp add: handleJoinRoom_rejected sendError_def sendMessage_def sends_def)

theorem join_rejected_no_mutation_witness:
  "demo_verify ''bad'' = None
   \<and> fst (handleJoinRoom demo_verify init_state 1 ''r1'' ''bad'' 20) = init_state
   \<and> sends (snd (handleJoinRoom demo_verify init_state 1 ''r1'' ''bad'' 20))
       = [Send 1 (ERROR ''JOIN_ROOM_FAILED'' ''Failed to join room'' 20)]"
proof -
  have v: "demo_verify ''bad'' = None"
    by (simp add: demo_verify_def)
  have o: "readyState (sockets init_state 1) = OPEN"
    by (simp add: init_state_def)
  from join_rejected_no_mutation
         [where verify = demo_verify and token = "''bad''" and s = init_state and c = 1
            and rid = "''r1''" and now = 20] v o
  show ?thesis by simp
qed

subsection \<open>Stamping of relayed messages\<close>

lemma handleChatMessage_bound:
  "binding s c = Some (u, r) \<Longrightarrow>
   handleChatMessage s c m now mid =
     (s, broadcastToRoom s r
           (CHAT_MESSAGE (m\<lparr>cm_id := Some mid, cm_timestamp := now, cm_senderId := Some u\<rparr>)) None
         @ [Log LDebug (''Chat message sent in room '' @ r @ '' by '' @ u)])"
  by (auto simp: handleChatMessage_def binding_def Let_def
           split: option.splits if_splits)

lemma handleMediaControl_bound:
  "binding s c = Some (u, r) \<Longrightarrow>
   handleMediaControl s c m now =
     (s, broadcastToRoom s r
           (MEDIA_CONTROL (m\<lparr>mc_senderId := Some u, mc_timestamp := now\<rparr>)) (Some u)
         @ [Log LDebug (''Media control '' @ action_name (mc_action m)
                         @ '' sent in room '' @ r @ '' by '' @ u)])"
  by (auto simp: handleMediaControl_def binding_def Let_def
           split: option.splits if_splits)

lemma handleScreenShare_bound:
  "binding s c = Some (u, r) \<Longrightarrow>
   handleScreenShare s c m now =
     (s, broadcastToRoom s r
           (SCREEN_SHARE (m\<lparr>ss_senderId := Some u, ss_timestamp := now\<rparr>)) (Some u)
         @ [Log LInfo (''Screen share '' @ type_name (ss_type m)
                        @ '' by '' @ u @ '' in room '' @ r)])"
  by (auto simp: handleScreenShare_def binding_def Let_def
           split: option.splits if_splits)

lemma Send_in_broadcast:
  "Send k msg \<in> set (broadcastToRoom s r m ex) \<Longrightarrow> msg = m"
  by (auto simp: broadcastToRoom_eq)

lemma handleChatMessage_unbound:
  "binding s c = None \<Longrightarrow>
   handleChatMessage s c m now mid
     = (s, sendError s c ''NOT_IN_ROOM'' ''Must be in a room to send messages'' now)"
  by (auto simp: handleChatMessage_def binding_def split: option.splits if_splits)

lemma handleMediaControl_unbound:
  "binding s c = None \<Longrightarrow>
   handleMediaControl s c m now
     = (s, sendError s c ''NOT_IN_ROOM'' ''Must be in a room to control media'' now)"
  by (auto simp: handleMediaControl_def binding_def split: option.splits if_splits)

lemma handleScreenShare_unbound:
  "binding s c = None \<Longrightarrow>
   handleScreenShare s c m now
     = (s, sendError s c ''NOT_IN_ROOM'' ''Must be in a room to share screen'' now)"
  by (auto simp: handleScreenShare_def binding_def split: option.splits if_splits)

lemma Send_in_sendError:
  "Send k msg \<in> set (sendError s c code text now) \<Longrightarrow> k = c \<and> msg = ERROR code text now"
  by (auto simp: sendError_def sendMessage_def split: if_splits)

text \<open>
  C6.  When a chat, media-control or screen-share envelope is handled for a socket whose
  user id and room id are set and non-empty, the handler relays the client's envelope with
  \<open>senderId\<close> set to the user bound to the sending socket and \<open>timestamp\<close> set to the
  server's clock, whatever the envelope carried in those fields: the messages written are
  exactly one copy of that stamped envelope per recipient entry of the bound room.  In
  every state at all, whatever these three handlers write to any socket carries the
  server's clock, and it carries the sending socket's user id as sender unless it is the
  \<open>NOT_IN_ROOM\<close> error returned to the sending socket itself.
\<close>

theorem relayed_messages_stamped:
  "(userId (sockets s c) = Some u \<and> roomId (sockets s c) = Some r \<and> u \<noteq> [] \<and> r \<noteq> [] \<longrightarrow>
     sends (snd (handleChatMessage s c cm now mid))
       = map (\<lambda>p. Send (rc_ws (snd p))
                (CHAT_MESSAGE (cm\<lparr>cm_id := Some mid, cm_timestamp := now, cm_senderId := Some u\<rparr>)))
           (filter (\<lambda>p. readyState (sockets s (rc_ws (snd p))) = OPEN) (members s r))
     \<and> sends (snd (handleMediaControl s c mm now))
       = map (\<lambda>p. Send (rc_ws (snd p))
                (MEDIA_CONTROL (mm\<lparr>mc_senderId := Some u, mc_timestamp := now\<rparr>)))
           (filter (\<lambda>p. fst p \<noteq> u \<and> readyState (sockets s (rc_ws (snd p))) = OPEN) (members s r))
     \<and> sends (snd (handleScreenShare s c sm now))
       = map (\<lambda>p. Send (rc_ws (snd p))
                (SCREEN_SHARE (sm\<lparr>ss_senderId := Some u, ss_timestamp := now\<rparr>)))
           (filter (\<lambda>p. fst p \<noteq> u \<and> readyState (sockets s (rc_ws (snd p))) = OPEN) (members s r))
     \<and> senderId_of (CHAT_MESSAGE (cm\<lparr>cm_id := Some mid, cm_timestamp := now, cm_senderId := Some u\<rparr>))
         = Some u
     \<and> timestamp_of (CHAT_MESSAGE (cm\<lparr>cm_id := Some mid, cm_timestamp := now, cm_senderId := Some u\<rparr>))
         = now
     \<and> senderId_of (MEDIA_CONTROL (mm\<lparr>mc_senderId := Some u, mc_timestamp := now\<rparr>)) = Some u
     \<and> timestamp_of (MEDIA_CONTROL (mm\<lparr>mc_senderId := Some u, mc_timestamp := now\<rparr>)) = now
     \<and> senderId_of (SCREEN_SHARE (sm\<lparr>ss_senderId := Some u, ss_timestamp := now\<rparr>)) = Some u
     \<and> timestamp_of (SCREEN_SHARE (sm\<lparr>ss_senderId := Some u, ss_timestamp := now\<rparr>)) = now)
   \<and> (Send k msg \<in> set (snd (handleChatMessage s c cm now mid))
                    \<union> set (snd (handleMediaControl s c mm now))
                    \<union> set (snd (handleScreenShare s c sm now))
       \<longrightarrow> timestamp_of msg = now
           \<and> (senderId_of msg = userId (sockets s c)
                \<or> (k = c \<and> (\<exists>t. msg = ERROR ''NOT_IN_ROOM'' t now))))"
proof -
  have lists:
    "sends (snd (handleChatMessage s c cm now mid))
       = map (\<lambda>p. Send (rc_ws (snd p))
                (CHAT_MESSAGE (cm\<lparr>cm_id := Some mid, cm_timestamp := now, cm_senderId := Some u\<rparr>)))
           (filter (\<lambda>p. readyState (sockets s (rc_ws (snd p))) = OPEN) (members s r))
     \<and> sends (snd (handleMediaControl s c mm now))
       = map (\<lambda>p. Send (rc_ws (snd p))
                (MEDIA_CONTROL (mm\<lparr>mc_senderId := Some u, mc_timestamp := now\<rparr>)))
           (filter (\<lambda>p. fst p \<noteq> u \<and> readyState (sockets s (rc_ws (snd p))) = OPEN) (members s r))
     \<and> sends (snd (handleScreenShare s c sm now))
       = map (\<lambda>p. Send (rc_ws (snd p))
                (SCREEN_SHARE (sm\<lparr>ss_senderId := Some u, ss_timestamp := now\<rparr>)))
           (filter (\<lambda>p. fst p \<noteq> u \<and> readyState (sockets s (rc_ws (snd p))) = OPEN) (members s r))"
    if "userId (sockets s c) = Some u" "roomId (sockets s c) = Some r" "u \<noteq> []" "r \<noteq> []"
  proof -
    from that have "binding s c = Some (u, r)"
      by (simp add: binding_def)
    then show ?thesis
      by (simp add: handleChatMessage_bound handleMediaControl_bound handleScreenShare_bound
            broadcastToRoom_eq deliverable_def sends_def filter_map o_def)
  qed
  have every: "timestamp_of msg = now
           \<and> (senderId_of msg = userId (sockets s c)
                \<or> (k = c \<and> (\<exists>t. msg = ERROR ''NOT_IN_ROOM'' t now)))"
    if m: "Send k msg \<in> set (snd (handleChatMessage s c cm now mid))
                    \<union> set (snd (handleMediaControl s c mm now))
                    \<union> set (snd (handleScreenShare s c sm now))"
  proof (cases "binding s c")
    case None
    with m have "k = c \<and> (\<exists>t. msg = ERROR ''NOT_IN_ROOM'' t now)"
      by (auto simp: handleChatMessage_unbound handleMediaControl_unbound
            handleScreenShare_unbound dest!: Send_in_sendError)
    then show ?thesis by auto
  next
    case (Some p)
    obtain u' r' where "p = (u', r')" by (cases p)
    with Some have b: "binding s c = Some (u', r')" by simp
    then have "userId (sockets s c) = Some u'"
      by (auto simp: binding_def split: option.splits if_splits)
    with m b show ?thesis
      by (auto simp: handleChatMessage_bound handleMediaControl_bound handleScreenShare_bound
               dest!: Send_in_broadcast)
  qed
  from lists every show ?thesis by simp
qed

text \<open>
  Alice (socket 1) and Bob (socket 2) are in \<open>r1\<close>; each of Alice's three envelopes
  claims to come from Bob at time 0.
\<close>

theorem relayed_messages_stamped_witness:
  "userId (sockets (run demo_verify init_state
             [join_ev 1 ''r1'' ''token-A'' 10, join_ev 2 ''r1'' ''token-B'' 11]) 1) = Some ''A''
   \<and> roomId (sockets (run demo_verify init_state
             [join_ev 1 ''r1'' ''token-A'' 10, join_ev 2 ''r1'' ''token-B'' 11]) 1) = Some ''r1''
   \<and> ''A'' \<noteq> [] \<and> ''r1'' \<noteq> []
   \<and> sends (snd (handleChatMessage (run demo_verify init_state
             [join_ev 1 ''r1'' ''token-A'' 10, join_ev 2 ''r1'' ''token-B'' 11]) 1
         \<lparr>cm_roomId = ''r1'', cm_message = ''hi'', cm_senderId = Some ''B'', cm_id = None,
          cm_timestamp = 0\<rparr> 12 ''m7''))
     = [Send 1 (CHAT_MESSAGE \<lparr>cm_roomId = ''r1'', cm_message = ''hi'',
                   cm_senderId = Some ''A'', cm_id = Some ''m7'', cm_timestamp = 12\<rparr>),
        Send 2 (CHAT_MESSAGE \<lparr>cm_roomId = ''r1'', cm_message = ''hi'',
                   cm_senderId = Some ''A'', cm_id = Some ''m7'', cm_timestamp = 12\<rparr>)]
   \<and> sends (snd (handleMediaControl (run demo_verify init_state
             [join_ev 1 ''r1'' ''token-A'' 10, join_ev 2 ''r1'' ''token-B'' 11]) 1
         \<lparr>mc_roomId = ''r1'', mc_action = Seek, mc_payload = Some ''42'',
          mc_senderId = Some ''B'', mc_timestamp = 0\<rparr> 12))
     = [Send 2 (MEDIA_CONTROL \<lparr>mc_roomId = ''r1'', mc_action = Seek, mc_payload = Some ''42'',
                   mc_senderId = Some ''A'', mc_timestamp = 12\<rparr>)]
   \<and> sends (snd (handleScreenShare (run demo_verify init_state
             [join_ev 1 ''r1'' ''token-A'' 10, join_ev 2 ''r1'' ''token-B'' 11]) 1
         \<lparr>ss_type = SCREEN_SHARE_START, ss_roomId = ''r1'', ss_senderId = Some ''B'',
          ss_timestamp = 0\<rparr> 12))
     = [Send 2 (SCREEN_SHARE \<lparr>ss_type = SCREEN_SHARE_START, ss_roomId = ''r1'',
                   ss_senderId = Some ''A'', ss_timestamp = 12\<rparr>)]
   \<and> Send 2 (SCREEN_SHARE \<lparr>ss_type = SCREEN_SHARE_START, ss_roomId = ''r1'',
                   ss_senderId = Some ''A'', ss_timestamp = 12\<rparr>)
       \<in> set (snd (handleScreenShare (run demo_verify init_state
             [join_ev 1 ''r1'' ''token-A'' 10, join_ev 2 ''r1'' ''token-B'' 11]) 1
         \<lparr>ss_type = SCREEN_SHARE_START, ss_roomId = ''r1'', ss_senderId = Some ''B'',
          ss_timestamp = 0\<rparr> 12))
   \<and> timestamp_of (SCREEN_SHARE \<lparr>ss_type = SCREEN_SHARE_START, ss_roomId = ''r1'',
                   ss_senderId = Some ''A'', ss_timestamp = 12\<rparr>) = 12
   \<and> senderId_of (SCREEN_SHARE \<lparr>ss_type = SCREEN_SHARE_START, ss_roomId = ''r1'',
                   ss_senderId = Some ''A'', ss_timestamp = 12\<rparr>) = Some ''A''"
proof -
  let ?s = "run demo_verify init_state
             [join_ev 1 ''r1'' ''token-A'' 10, join_ev 2 ''r1'' ''token-B'' 11]"
  let ?cm = "\<lparr>cm_roomId = ''r1'', cm_message = ''hi'', cm_senderId = Some ''B'',
              cm_id = None, cm_timestamp = 0\<rparr>"
  let ?mm = "\<lparr>mc_roomId = ''r1'', mc_action = Seek, mc_payload = Some ''42'',
              mc_senderId = Some ''B'', mc_timestamp = 0\<rparr>"
  let ?sm = "\<lparr>ss_type = SCREEN_SHARE_START, ss_roomId = ''r1'',
              ss_senderId = Some ''B'', ss_timestamp = 0\<rparr>"
  let ?out = "SCREEN_SHARE \<lparr>ss_type = SCREEN_SHARE_START, ss_roomId = ''r1'',
                ss_senderId = Some ''A'', ss_timestamp = 12\<rparr>"
  have f: "userId (sockets ?s 1) = Some ''A'' \<and> roomId (sockets ?s 1) = Some ''r1''
           \<and> ''A'' \<noteq> [] \<and> ''r1'' \<noteq> []"
    by (simp add: run_eval)
  note t = relayed_messages_stamped
         [where s = ?s and c = 1 and u = "''A''" and r = "''r1''"
            and cm = ?cm and mm = ?mm and sm = ?sm and now = 12 and mid = "''m7''"
            and k = 2 and msg = ?out]
  from t [THEN conjunct1, rule_format, OF f]
  have lists: "sends (snd (handleChatMessage ?s 1 ?cm 12 ''m7''))
     = [Send 1 (CHAT_MESSAGE \<lparr>cm_roomId = ''r1'', cm_message = ''hi'',
                   cm_senderId = Some ''A'', cm_id = Some ''m7'', cm_timestamp = 12\<rparr>),
        Send 2 (CHAT_MESSAGE \<lparr>cm_roomId = ''r1'', cm_message = ''hi'',
                   cm_senderId = Some ''A'', cm_id = Some ''m7'', cm_timestamp = 12\<rparr>)]
   \<and> sends (snd (handleMediaControl ?s 1 ?mm 12))
     = [Send 2 (MEDIA_CONTROL \<lparr>mc_roomId = ''r1'', mc_action = Seek, mc_payload = Some ''42'',
                   mc_senderId = Some ''A'', mc_timestamp = 12\<rparr>)]
   \<and> sends (snd (handleScreenShare ?s 1 ?sm 12)) = [Send 2 ?out]"
    by (simp add: run_eval)
  have mem: "Send 2 ?out \<in> set (snd (handleScreenShare ?s 1 ?sm 12))"
    by (simp add: run_eval)
  then have "Send 2 ?out \<in> set (snd (handleChatMessage ?s 1 ?cm 12 ''m7''))
                    \<union> set (snd (handleMediaControl ?s 1 ?mm 12))
                    \<union> set (snd (handleScreenShare ?s 1 ?sm 12))"
    by blast
  with t [THEN conjunct2, rule_format] f
  have st: "timestamp_of ?out = 12 \<and> senderId_of ?out = Some ''A''"
    by auto
  from f lists mem st show ?thesis by blast
qed

subsection \<open>Leaving\<close>

text \<open>
  C9 as stated fails.  Socket 1 joins the room whose id is the empty string as Alice.
  The socket is now bound to that room, Alice has an entry in it and is in the registry;
  yet its leave envelope is answered \<open>NOT_IN_ROOM\<close> and nothing is removed or cleared,
  because the handler's guard treats an empty room id like a missing one.
\<close>

theorem leave_empty_room_counterexample:
  "userId (sockets (run demo_verify init_state [join_ev 1 [] ''token-A'' 10]) 1) = Some ''A''
   \<and> roomId (sockets (run demo_verify init_state [join_ev 1 [] ''token-A'' 10]) 1) = Some []
   \<and> ''A'' \<in> memberIds (run demo_verify init_state [join_ev 1 [] ''token-A'' 10]) []
   \<and> connections (run demo_verify init_state [join_ev 1 [] ''token-A'' 10]) ''A'' = Some 1
   \<and> handleLeaveRoom (run demo_verify init_state [join_ev 1 [] ''token-A'' 10]) 1 [] 11
       = (run demo_verify init_state [join_ev 1 [] ''token-A'' 10],
          [Send 1 (ERROR ''NOT_IN_ROOM'' ''Not currently in a room'' 11)])"
  by (simp add: run_eval memberIds_def)

text \<open>
  C9, amended.  For a leave envelope handled on a socket whose user id \<open>u\<close> and room id
  \<open>r\<close> are both set and non-empty: the resulting state and the messages sent are the
  same whatever room id the envelope names (it appears only in the handler's log line);
  the entry removed is \<open>u\<close>'s entry in the bound room \<open>r\<close>, and every other room is
  untouched; \<open>u\<close> is removed from the registry and the socket's identity and room are
  cleared in every such case, also when \<open>r\<close> holds no entry for \<open>u\<close>, and then the room
  table is unchanged and nothing is sent.  On a socket whose user id or room id is unset
  or empty the handler changes nothing and only answers \<open>NOT_IN_ROOM\<close>.
\<close>

theorem leave_acts_on_bound_room:
  "(userId (sockets s c) = Some u \<and> roomId (sockets s c) = Some r \<and> u \<noteq> [] \<and> r \<noteq> [] \<longrightarrow>
      fst (handleLeaveRoom s c mr now) = fst (handleLeaveRoom s c mr' now)
      \<and> sends (snd (handleLeaveRoom s c mr now)) = sends (snd (handleLeaveRoom s c mr' now))
      \<and> members (fst (handleLeaveRoom s c mr now)) r = AList.delete u (members s r)
      \<and> (r' \<noteq> r \<longrightarrow> members (fst (handleLeaveRoom s c mr now)) r' = members s r')
      \<and> connections (fst (handleLeaveRoom s c mr now)) u = None
      \<and> userId (sockets (fst (handleLeaveRoom s c mr now)) c) = None
      \<and> roomId (sockets (fst (handleLeaveRoom s c mr now)) c) = None
      \<and> (map_of (members s r) u = None \<longrightarrow>
            roomConnections (fst (handleLeaveRoom s c mr now)) = roomConnections s
            \<and> sends (snd (handleLeaveRoom s c mr now)) = []))
   \<and> (userId (sockets s c) = None \<or> userId (sockets s c) = Some []
        \<or> roomId (sockets s c) = None \<or> roomId (sockets s c) = Some [] \<longrightarrow>
      handleLeaveRoom s c mr now
        = (s, sendError s c ''NOT_IN_ROOM'' ''Not currently in a room'' now))"
proof -
  have bound: "fst (handleLeaveRoom s c mr now) = fst (handleLeaveRoom s c mr' now)
      \<and> sends (snd (handleLeaveRoom s c mr now)) = sends (snd (handleLeaveRoom s c mr' now))
      \<and> members (fst (handleLeaveRoom s c mr now)) r = AList.delete u (members s r)
      \<and> (r' \<noteq> r \<longrightarrow> members (fst (handleLeaveRoom s c mr now)) r' = members s r')
      \<and> connections (fst (handleLeaveRoom s c mr now)) u = None
      \<and> userId (sockets (fst (handleLeaveRoom s c mr now)) c) = None
      \<and> roomId (sockets (fst (handleLeaveRoom s c mr now)) c) = None
      \<and> (map_of (members s r) u = None \<longrightarrow>
            roomConnections (fst (handleLeaveRoom s c mr now)) = roomConnections s
            \<and> sends (snd (handleLeaveRoom s c mr now)) = [])"
    if "userId (sockets s c) = Some u" "roomId (sockets s c) = Some r" "u \<noteq> []" "r \<noteq> []"
  proof -
    from that have "binding s c = Some (u, r)"
      by (simp add: binding_def)
    then show ?thesis
      by (simp add: handleLeaveRoom_bound members_removeRoomUser removeRoomUser_absent)
  qed
  have unbound: "handleLeaveRoom s c mr now
        = (s, sendError s c ''NOT_IN_ROOM'' ''Not currently in a room'' now)"
    if "userId (sockets s c) = None \<or> userId (sockets s c) = Some []
        \<or> roomId (sockets s c) = None \<or> roomId (sockets s c) = Some []"
  proof -
    from that have "binding s c = None"
      by (auto simp: binding_def split: option.splits)
    then show ?thesis by (rule handleLeaveRoom_unbound)
  qed
  from bound unbound show ?thesis by blast
qed

text \<open>
  Alice joins \<open>r1\<close> on socket 1 and again on socket 2; socket 2 leaves and joins \<open>r2\<close>:
  socket 1 is still bound to Alice and \<open>r1\<close>, \<open>r1\<close> holds no entry for her, and the
  registry maps her to socket 2.  Socket 1 then sends a leave envelope that names \<open>r2\<close>:
  Alice stays in \<open>r2\<close>, nothing is sent, and her registry entry is gone.  In a second run
  socket 1 joined the room with the empty id and its leave is refused.
\<close>

theorem leave_acts_on_bound_room_witness:
  "userId (sockets (run demo_verify init_state
       [join_ev 1 ''r1'' ''token-A'' 10, join_ev 2 ''r1'' ''token-A'' 11,
        Message 2 (LeaveRoomMessage ''r1'') 12 ''id'', join_ev 2 ''r2'' ''token-A'' 13]) 1)
     = Some ''A''
   \<and> roomId (sockets (run demo_verify init_state
       [join_ev 1 ''r1'' ''token-A'' 10, join_ev 2 ''r1'' ''token-A'' 11,
        Message 2 (LeaveRoomMessage ''r1'') 12 ''id'', join_ev 2 ''r2'' ''token-A'' 13]) 1)
     = Some ''r1''
   \<and> map_of (members (run demo_verify init_state
       [join_ev 1 ''r1'' ''token-A'' 10, join_ev 2 ''r1'' ''token-A'' 11,
        Message 2 (LeaveRoomMessage ''r1'') 12 ''id'', join_ev 2 ''r2'' ''token-A'' 13]) ''r1'') ''A''
     = None
   \<and> connections (run demo_verify init_state
       [join_ev 1 ''r1'' ''token-A'' 10, join_ev 2 ''r1'' ''token-A'' 11,
        Message 2 (LeaveRoomMessage ''r1'') 12 ''id'', join_ev 2 ''r2'' ''token-A'' 13]) ''A''
     = Some 2
   \<and> connections (fst (handleLeaveRoom (run demo_verify init_state
       [join_ev 1 ''r1'' ''token-A'' 10, join_ev 2 ''r1'' ''token-A'' 11,
        Message 2 (LeaveRoomMessage ''r1'') 12 ''id'', join_ev 2 ''r2'' ''token-A'' 13])
       1 ''r2'' 14)) ''A'' = None
   \<and> userId (sockets (fst (handleLeaveRoom (run demo_verify init_state
       [join_ev 1 ''r1'' ''token-A'' 10, join_ev 2 ''r1'' ''token-A'' 11,
        Message 2 (LeaveRoomMessage ''r1'') 12 ''id'', join_ev 2 ''r2'' ''token-A'' 13])
       1 ''r2'' 14)) 1) = None
   \<and> map fst (members (fst (handleLeaveRoom (run demo_verify init_state
       [join_ev 1 ''r1'' ''token-A'' 10, join_ev 2 ''r1'' ''token-A'' 11,
        Message 2 (LeaveRoomMessage ''r1'') 12 ''id'', join_ev 2 ''r2'' ''token-A'' 13])
       1 ''r2'' 14)) ''r2'') = [''A'']
   \<and> sends (snd (handleLeaveRoom (run demo_verify init_state
       [join_ev 1 ''r1'' ''token-A'' 10, join_ev 2 ''r1'' ''token-A'' 11,
        Message 2 (LeaveRoomMessage ''r1'') 12 ''id'', join_ev 2 ''r2'' ''token-A'' 13])
       1 ''r2'' 14)) = []
   \<and> roomId (sockets (run demo_verify init_state [join_ev 1 [] ''token-A'' 10]) 1) = Some []
   \<and> handleLeaveRoom (run demo_verify init_state [join_ev 1 [] ''token-A'' 10]) 1 [] 11
       = (run demo_verify init_state [join_ev 1 [] ''token-A'' 10],
          [Send 1 (ERROR ''NOT_IN_ROOM'' ''Not currently in a room'' 11)])"
proof -
  let ?s = "run demo_verify init_state
       [join_ev 1 ''r1'' ''token-A'' 10, join_ev 2 ''r1'' ''token-A'' 11,
        Message 2 (LeaveRoomMessage ''r1'') 12 ''id'', join_ev 2 ''r2'' ''token-A'' 13]"
  let ?t = "run demo_verify init_state [join_ev 1 [] ''token-A'' 10]"
  have u: "userId (sockets ?s 1) = Some ''A''" and r: "roomId (sockets ?s 1) = Some ''r1''"
    by (simp_all add: run_eval)
  have a: "map_of (members ?s ''r1'') ''A'' = None"
    by (simp add: run_eval)
  have g: "connections ?s ''A'' = Some 2"
    by (simp add: run_eval)
  have m2: "map fst (members ?s ''r2'') = [''A'']"
    by (simp add: run_eval)
  have e: "roomId (sockets ?t 1) = Some []"
    by (simp add: run_eval)
  have o: "sendError ?t 1 ''NOT_IN_ROOM'' ''Not currently in a room'' 11
      = [Send 1 (ERROR ''NOT_IN_ROOM'' ''Not currently in a room'' 11)]"
    by (simp add: run_eval)
  have d: "''A'' \<noteq> []" "''r1'' \<noteq> []" "''r2'' \<noteq> ''r1''"
    by simp_all
  note b = leave_acts_on_bound_room
             [where s = ?s and c = 1 and u = "''A''" and r = "''r1''" and mr = "''r2''"
                and mr' = "''r2''" and r' = "''r2''" and now = 14, THEN conjunct1, rule_format]
  note n = leave_acts_on_bound_room
             [where s = ?t and c = 1 and mr = "[]" and now = 11, THEN conjunct2, rule_format]
  from b u r d a m2 have 1:
    "connections (fst (handleLeaveRoom ?s 1 ''r2'' 14)) ''A'' = None
     \<and> userId (sockets (fst (handleLeaveRoom ?s 1 ''r2'' 14)) 1) = None
     \<and> map fst (members (fst (handleLeaveRoom ?s 1 ''r2'' 14)) ''r2'') = [''A'']
     \<and> sends (snd (handleLeaveRoom ?s 1 ''r2'' 14)) = []"
    by metis
  from n e o have 2: "handleLeaveRoom ?t 1 [] 11
       = (?t, [Send 1 (ERROR ''NOT_IN_ROOM'' ''Not currently in a room'' 11)])"
    by metis
  from u r a g 1 e 2 show ?thesis by blast
qed

subsection \<open>Disconnect cleanup\<close>

lemma binding_upd [simp]:
  "binding (s\<lparr>connections := x\<rparr>) c = binding s c"
  "binding (s\<lparr>roomConnections := y\<rparr>) c = binding s c"
  by (simp_all add: binding_def cong: option.case_cong)

lemma binding_removeRoomUser [simp]:
  "binding (fst (removeRoomUser s r u now)) c = binding s c"
  by (simp add: binding_def cong: option.case_cong)

lemma deliverable_removeRoomUser [simp]:
  "deliverable (fst (removeRoomUser s r u now)) = deliverable s"
  by (simp add: deliverable_def fun_eq_iff)

lemma handleDisconnection_twice:
  "handleDisconnection (fst (handleDisconnection s c now)) c now'
     = (fst (handleDisconnection s c now), snd (handleDisconnection (fst (handleDisconnection s c now)) c now'))
   \<and> sends (snd (handleDisconnection (fst (handleDisconnection s c now)) c now')) = []"
proof (cases "binding s c")
  case None
  show ?thesis
  proof (cases "userId (sockets s c) = None \<or> userId (sockets s c) = Some []")
    case True
    then show ?thesis by (simp add: handleDisconnection_falsy)
  next
    case False
    then obtain u where u: "userId (sockets s c) = Some u" "u \<noteq> []"
      by auto
    let ?s1 = "s\<lparr>connections := (connections s)(u := None)\<rparr>"
    have 1: "handleDisconnection s c now = (?s1, [Log LInfo (''User '' @ u @ '' disconnected'')])"
      using u None by (simp add: handleDisconnection_noroom)
    have "binding ?s1 c = None" using None by simp
    with u have "handleDisconnection ?s1 c now'
        = (?s1, [Log LInfo (''User '' @ u @ '' disconnected'')])"
      by (simp add: handleDisconnection_noroom)
    with 1 show ?thesis by simp
  qed
next
  case (Some p)
  obtain u r where p: "p = (u, r)" by (cases p)
  let ?s1 = "(fst (removeRoomUser s r u now))\<lparr>connections := (connections s)(u := None)\<rparr>"
  have 1: "fst (handleDisconnection s c now) = ?s1"
    using Some p by (simp add: handleDisconnection_bound)
  have b1: "binding ?s1 c = Some (u, r)"
    using Some p by simp
  have "map_of (members ?s1 r) u = None"
    by (simp add: members_removeRoomUser delete_conv')
  then have "removeRoomUser ?s1 r u now' = (?s1, [])"
    by (rule removeRoomUser_absent)
  then have "handleDisconnection ?s1 c now'
      = (?s1, [Log LInfo (''User '' @ u @ '' disconnected'')])"
    by (simp add: handleDisconnection_bound [OF b1])
  with 1 show ?thesis by simp
qed

lemma filter_deliverable_delete:
  "filter (deliverable s (Some u)) (AList.delete u m)
     = filter (\<lambda>p. readyState (sockets s (rc_ws (snd p))) = OPEN) (AList.delete u m)"
  by (rule filter_cong) (auto simp: deliverable_def AList.delete_eq)

text \<open>
  C4 as stated fails.  Alice (socket 1) and Bob (socket 2) joined the room whose id is
  the empty string, both with open transports.  Alice's socket is a joined member, but the
  disconnect routine skips the room for an empty room id: neither the first nor the
  second run sends a \<open>USER_LEFT\<close> to Bob, and Alice's entry stays in the room.
\<close>

theorem disconnect_empty_room_counterexample:
  "roomId (sockets (run demo_verify init_state
       [join_ev 1 [] ''token-A'' 10, join_ev 2 [] ''token-B'' 11]) 1) = Some []
   \<and> map fst (members (run demo_verify init_state
       [join_ev 1 [] ''token-A'' 10, join_ev 2 [] ''token-B'' 11]) []) = [''A'', ''B'']
   \<and> readyState (sockets (run demo_verify init_state
       [join_ev 1 [] ''token-A'' 10, join_ev 2 [] ''token-B'' 11]) 2) = OPEN
   \<and> sends (snd (handleDisconnection (run demo_verify init_state
       [join_ev 1 [] ''token-A'' 10, join_ev 2 [] ''token-B'' 11]) 1 12)) = []
   \<and> sends (snd (handleDisconnection (fst (handleDisconnection (run demo_verify init_state
       [join_ev 1 [] ''token-A'' 10, join_ev 2 [] ''token-B'' 11]) 1 12)) 1 13)) = []
   \<and> map fst (members (fst (handleDisconnection (run demo_verify init_state
       [join_ev 1 [] ''token-A'' 10, join_ev 2 [] ''token-B'' 11]) 1 12)) []) = [''A'', ''B'']"
  by (simp add: run_eval sends_def)

text \<open>
  C4, amended.  For every socket, running the disconnect routine twice in succession
  leaves exactly the state a single run leaves (registry, room table and sockets alike),
  and the second run sends nothing, so it produces no second \<open>USER_LEFT\<close> and no error
  envelope.  If the socket's user id \<open>u\<close> and room id \<open>r\<close> are both set and non-empty
  and \<open>r\<close> holds an entry for \<open>u\<close>, the first run removes that entry, removes \<open>u\<close>
  from the registry and writes one \<open>USER_LEFT\<close> to the socket of each remaining member
  of \<open>r\<close> whose transport is open, and to no one else.  If the user id or the room id is
  unset or empty, or \<open>r\<close> holds no entry for \<open>u\<close>, the first run sends nothing either
  and leaves the room table as it was.
\<close>

theorem disconnect_cleanup_idempotent:
  "fst (handleDisconnection (fst (handleDisconnection s c now)) c now')
       = fst (handleDisconnection s c now)
   \<and> sends (snd (handleDisconnection (fst (handleDisconnection s c now)) c now')) = []
   \<and> (userId (sockets s c) = Some u \<and> roomId (sockets s c) = Some r \<and> u \<noteq> [] \<and> r \<noteq> []
        \<and> map_of (members s r) u = Some e \<longrightarrow>
      sends (snd (handleDisconnection s c now))
        = map (\<lambda>p. Send (rc_ws (snd p)) (USER_LEFT r u (rc_username e) now))
            (filter (\<lambda>p. readyState (sockets s (rc_ws (snd p))) = OPEN)
               (AList.delete u (members s r)))
      \<and> members (fst (handleDisconnection s c now)) r = AList.delete u (members s r)
      \<and> connections (fst (handleDisconnection s c now)) u = None)
   \<and> (userId (sockets s c) = None \<or> userId (sockets s c) = Some []
        \<or> roomId (sockets s c) = None \<or> roomId (sockets s c) = Some []
        \<or> (userId (sockets s c) = Some u \<and> roomId (sockets s c) = Some r
            \<and> map_of (members s r) u = None) \<longrightarrow>
      sends (snd (handleDisconnection s c now)) = []
      \<and> roomConnections (fst (handleDisconnection s c now)) = roomConnections s)"
proof -
  have twice: "fst (handleDisconnection (fst (handleDisconnection s c now)) c now')
           = fst (handleDisconnection s c now)"
    using handleDisconnection_twice [of s c now now'] by (metis fst_conv)
  have quiet: "sends (snd (handleDisconnection (fst (handleDisconnection s c now)) c now')) = []"
    using handleDisconnection_twice [of s c now now'] by simp
  have first: "sends (snd (handleDisconnection s c now))
        = map (\<lambda>p. Send (rc_ws (snd p)) (USER_LEFT r u (rc_username e) now))
            (filter (\<lambda>p. readyState (sockets s (rc_ws (snd p))) = OPEN)
               (AList.delete u (members s r)))
      \<and> members (fst (handleDisconnection s c now)) r = AList.delete u (members s r)
      \<and> connections (fst (handleDisconnection s c now)) u = None"
    if "userId (sockets s c) = Some u" "roomId (sockets s c) = Some r" "u \<noteq> []" "r \<noteq> []"
       "map_of (members s r) u = Some e"
  proof -
    from that have b: "binding s c = Some (u, r)"
      by (simp add: binding_def)
    with that(5) show ?thesis
      by (simp add: handleDisconnection_bound effects_removeRoomUser members_removeRoomUser
            filter_deliverable_delete sends_def filter_map o_def)
  qed
  have none: "sends (snd (handleDisconnection s c now)) = []
      \<and> roomConnections (fst (handleDisconnection s c now)) = roomConnections s"
    if "userId (sockets s c) = None \<or> userId (sockets s c) = Some []
        \<or> roomId (sockets s c) = None \<or> roomId (sockets s c) = Some []
        \<or> (userId (sockets s c) = Some u \<and> roomId (sockets s c) = Some r
            \<and> map_of (members s r) u = None)"
    using that
    by (auto simp: handleDisconnection_def Let_def split_beta removeRoomUser_absent
             split: option.splits)
  from twice quiet first none show ?thesis by blast
qed

text \<open>
  Alice and Bob are in \<open>r1\<close> and Alice's socket is cleaned up twice; in a second run both
  joined the room with the empty id.
\<close>

theorem disconnect_cleanup_idempotent_witness:
  "userId (sockets (run demo_verify init_state
       [join_ev 1 ''r1'' ''token-A'' 10, join_ev 2 ''r1'' ''token-B'' 11]) 1) = Some ''A''
   \<and> roomId (sockets (run demo_verify init_state
       [join_ev 1 ''r1'' ''token-A'' 10, join_ev 2 ''r1'' ''token-B'' 11]) 1) = Some ''r1''
   \<and> map_of (members (run demo_verify init_state
       [join_ev 1 ''r1'' ''token-A'' 10, join_ev 2 ''r1'' ''token-B'' 11]) ''r1'') ''A''
       = Some \<lparr>rc_userId = ''A'', rc_username = ''Alice'', rc_ws = 1, rc_joinedAt = 10\<rparr>
   \<and> sends (snd (handleDisconnection (run demo_verify init_state
       [join_ev 1 ''r1'' ''token-A'' 10, join_ev 2 ''r1'' ''token-B'' 11]) 1 12))
       = [Send 2 (USER_LEFT ''r1'' ''A'' ''Alice'' 12)]
   \<and> sends (snd (handleDisconnection (fst (handleDisconnection (run demo_verify init_state
       [join_ev 1 ''r1'' ''token-A'' 10, join_ev 2 ''r1'' ''token-B'' 11]) 1 12)) 1 13)) = []
   \<and> fst (handleDisconnection (fst (handleDisconnection (run demo_verify init_state
       [join_ev 1 ''r1'' ''token-A'' 10, join_ev 2 ''r1'' ''token-B'' 11]) 1 12)) 1 13)
       = fst (handleDisconnection (run demo_verify init_state
       [join_ev 1 ''r1'' ''token-A'' 10, join_ev 2 ''r1'' ''token-B'' 11]) 1 12)
   \<and> map fst (members (fst (handleDisconnection (run demo_verify init_state
       [join_ev 1 ''r1'' ''token-A'' 10, join_ev 2 ''r1'' ''token-B'' 11]) 1 12)) ''r1'') = [''B'']
   \<and> roomId (sockets (run demo_verify init_state
       [join_ev 1 [] ''token-A'' 10, join_ev 2 [] ''token-B'' 11]) 1) = Some []
   \<and> sends (snd (handleDisconnection (run demo_verify init_state
       [join_ev 1 [] ''token-A'' 10, join_ev 2 [] ''token-B'' 11]) 1 12)) = []
   \<and> roomConnections (fst (handleDisconnection (run demo_verify init_state
       [join_ev 1 [] ''token-A'' 10, join_ev 2 [] ''token-B'' 11]) 1 12))
       = roomConnections (run demo_verify init_state
       [join_ev 1 [] ''token-A'' 10, join_ev 2 [] ''token-B'' 11])"
proof -
  let ?s = "run demo_verify init_state
       [join_ev 1 ''r1'' ''token-A'' 10, join_ev 2 ''r1'' ''token-B'' 11]"
  let ?t = "run demo_verify init_state
       [join_ev 1 [] ''token-A'' 10, join_ev 2 [] ''token-B'' 11]"
  let ?e = "\<lparr>rc_userId = ''A'', rc_username = ''Alice'', rc_ws = 1, rc_joinedAt = 10\<rparr>"
  have u: "userId (sockets ?s 1) = Some ''A''" and r: "roomId (sockets ?s 1) = Some ''r1''"
    by (simp_all add: run_eval)
  have m: "map_of (members ?s ''r1'') ''A'' = Some ?e"
    by (simp add: run_eval)
  have l: "map (\<lambda>p. Send (rc_ws (snd p)) (USER_LEFT ''r1'' ''A'' (rc_username ?e) 12))
            (filter (\<lambda>p. readyState (sockets ?s (rc_ws (snd p))) = OPEN)
               (AList.delete ''A'' (members ?s ''r1'')))
        = [Send 2 (USER_LEFT ''r1'' ''A'' ''Alice'' 12)]"
    by (simp add: run_eval)
  have k: "map fst (AList.delete ''A'' (members ?s ''r1'')) = [''B'']"
    by (simp add: run_eval)
  have e: "roomId (sockets ?t 1) = Some []"
    by (simp add: run_eval)
  have d: "''A'' \<noteq> []" "''r1'' \<noteq> []"
    by simp_all
  note t1 = disconnect_cleanup_idempotent
              [where s = ?s and c = 1 and u = "''A''" and r = "''r1''" and e = ?e
                 and now = 12 and now' = 13]
  note t2 = disconnect_cleanup_idempotent
              [where s = ?t and c = 1 and now = 12 and now' = 13, THEN conjunct2,
               THEN conjunct2, THEN conjunct2, rule_format]
  from t1 u r d m l k have 1:
    "sends (snd (handleDisconnection ?s 1 12)) = [Send 2 (USER_LEFT ''r1'' ''A'' ''Alice'' 12)]
     \<and> sends (snd (handleDisconnection (fst (handleDisconnection ?s 1 12)) 1 13)) = []
     \<and> fst (handleDisconnection (fst (handleDisconnection ?s 1 12)) 1 13)
         = fst (handleDisconnection ?s 1 12)
     \<and> map fst (members (fst (handleDisconnection ?s 1 12)) ''r1'') = [''B'']"
    by metis
  from t2 e have 2: "sends (snd (handleDisconnection ?t 1 12)) = []
     \<and> roomConnections (fst (handleDisconnection ?t 1 12)) = roomConnections ?t"
    by metis
  from u r m 1 e 2 show ?thesis by blast
qed

subsection \<open>Fanout when a recipient's transport is not open\<close>

text \<open>
  C7 as stated fails.  Alice (socket 1) and Bob (socket 2) are in \<open>r1\<close> and Bob's
  transport is closing.  A broadcast writes to Alice's socket and does nothing else: no
  line is logged for the skipped recipient, and the chat handler that issued the
  broadcast returns the state it was given, with Bob still in the room and the registry.
\<close>

theorem broadcast_failure_counterexample:
  "map fst (members (run demo_verify init_state
       [join_ev 1 ''r1'' ''token-A'' 10, join_ev 2 ''r1'' ''token-B'' 11,
        Transport 2 CLOSING]) ''r1'') = [''A'', ''B'']
   \<and> broadcastToRoom (run demo_verify init_state
       [join_ev 1 ''r1'' ''token-A'' 10, join_ev 2 ''r1'' ''token-B'' 11,
        Transport 2 CLOSING]) ''r1'' (HEARTBEAT 12) None = [Send 1 (HEARTBEAT 12)]
   \<and> handleChatMessage (run demo_verify init_state
       [join_ev 1 ''r1'' ''token-A'' 10, join_ev 2 ''r1'' ''token-B'' 11,
        Transport 2 CLOSING]) 1
       \<lparr>cm_roomId = ''r1'', cm_message = ''hi'', cm_senderId = None, cm_id = None,
        cm_timestamp = 0\<rparr> 12 ''m7''
     = (run demo_verify init_state
       [join_ev 1 ''r1'' ''token-A'' 10, join_ev 2 ''r1'' ''token-B'' 11,
        Transport 2 CLOSING],
        [Send 1 (CHAT_MESSAGE \<lparr>cm_roomId = ''r1'', cm_message = ''hi'',
                   cm_senderId = Some ''A'', cm_id = Some ''m7'', cm_timestamp = 12\<rparr>),
         Log LDebug ''Chat message sent in room r1 by A''])
   \<and> connections (run demo_verify init_state
       [join_ev 1 ''r1'' ''token-A'' 10, join_ev 2 ''r1'' ''token-B'' 11,
        Transport 2 CLOSING]) ''B'' = Some 2"
  by (simp add: run_eval)

text \<open>
  C7, amended.  A broadcast writes the message once to the socket of every member entry
  of the room that is not the excluded user and whose transport is open, in the order of
  the member map, whatever the transport state of the other members; so with \<open>N\<close>
  members, none excluded and one not open, the other \<open>N - 1\<close> are written to.  An entry
  whose transport is not open is skipped silently: the broadcast yields socket writes
  only, no log line, and it returns no state, so nothing is raised to the caller and no
  cleanup of the skipped socket is scheduled.
\<close>

theorem broadcast_skips_closed_silently:
  "broadcastToRoom s rid m ex
     = map (\<lambda>p. Send (rc_ws (snd p)) m) (filter (deliverable s ex) (members s rid))
   \<and> list_all isSend (broadcastToRoom s rid m ex)
   \<and> (length (members s rid) = n \<and> length (filter (\<lambda>p. \<not> deliverable s ex p) (members s rid)) = 1
      \<longrightarrow> length (broadcastToRoom s rid m ex) = n - 1)"
proof -
  have eq: "broadcastToRoom s rid m ex
     = map (\<lambda>p. Send (rc_ws (snd p)) m) (filter (deliverable s ex) (members s rid))"
    by (rule broadcastToRoom_eq)
  have all: "list_all isSend (broadcastToRoom s rid m ex)"
    by (simp add: eq list_all_iff)
  have "length (filter (deliverable s ex) (members s rid))
          + length (filter (\<lambda>p. \<not> deliverable s ex p) (members s rid))
        = length (members s rid)"
    by (rule sum_length_filter_compl)
  then have cnt: "length (members s rid) = n
      \<and> length (filter (\<lambda>p. \<not> deliverable s ex p) (members s rid)) = 1
      \<longrightarrow> length (broadcastToRoom s rid m ex) = n - 1"
    by (auto simp: eq)
  from eq all cnt show ?thesis by blast
qed

theorem broadcast_skips_closed_silently_witness:
  "length (members (run demo_verify init_state
       [join_ev 1 ''r1'' ''token-A'' 10, join_ev 2 ''r1'' ''token-B'' 11,
        Transport 2 CLOSING]) ''r1'') = 2
   \<and> length (filter (\<lambda>p. \<not> deliverable (run demo_verify init_state
       [join_ev 1 ''r1'' ''token-A'' 10, join_ev 2 ''r1'' ''token-B'' 11,
        Transport 2 CLOSING]) None p)
        (members (run demo_verify init_state
       [join_ev 1 ''r1'' ''token-A'' 10, join_ev 2 ''r1'' ''token-B'' 11,
        Transport 2 CLOSING]) ''r1'')) = 1
   \<and> length (broadcastToRoom (run demo_verify init_state
       [join_ev 1 ''r1'' ''token-A'' 10, join_ev 2 ''r1'' ''token-B'' 11,
        Transport 2 CLOSING]) ''r1'' (HEARTBEAT 12) None) = 2 - 1"
proof -
  let ?s = "run demo_verify init_state
       [join_ev 1 ''r1'' ''token-A'' 10, join_ev 2 ''r1'' ''token-B'' 11,
        Transport 2 CLOSING]"
  have n: "length (members ?s ''r1'') = 2"
    by (simp add: run_eval)
  have k: "length (filter (\<lambda>p. \<not> deliverable ?s None p) (members ?s ''r1'')) = 1"
    by (simp add: run_eval deliverable_def)
  from broadcast_skips_closed_silently [of ?s "''r1''" "HEARTBEAT 12" None 2] n k
  show ?thesis by blast
qed

subsection \<open>Who receives a relayed message\<close>




subsection \<open>Keys of the room table and of the member maps stay distinct\<close>

lemma keys_distinct_upd [simp]:
  "keys_distinct (s\<lparr>connections := x\<rparr>) = keys_distinct s"
  "keys_distinct (s\<lparr>sockets := y\<rparr>) = keys_distinct s"
  by (simp_all add: keys_distinct_def)

lemma keys_distinct_members:
  assumes "keys_distinct s"
  shows "distinct (map fst (members s rid))"
proof (cases "map_of (roomConnections s) rid")
  case None
  then show ?thesis by (simp add: members_def)
next
  case (Some m)
  with assms have "distinct (map fst m)"
    unfolding keys_distinct_def by (auto dest: list_all_map_of)
  with Some show ?thesis by (simp add: members_def)
qed

lemma keys_distinct_removeRoomUser:
  assumes "keys_distinct s"
  shows "keys_distinct (fst (removeRoomUser s r u now))"
proof -
  have d: "distinct (map fst (AList.delete u (members s r)))"
    using keys_distinct_members [OF assms] by (rule distinct_delete)
  from assms d show ?thesis
    by (auto simp: keys_distinct_def table_removeRoomUser distinct_delete distinct_update
          list_all_update list_all_delete split: option.splits)
qed

lemma keys_distinct_handleJoinRoom:
  assumes "keys_distinct s"
  shows "keys_distinct (fst (handleJoinRoom verify s c rid token now))"
proof (cases "verify token")
  case None
  with assms show ?thesis by (simp add: handleJoinRoom_rejected)
next
  case (Some p)
  obtain u n where p: "p = (u, n)" by (cases p)
  have d: "distinct (map fst (AList.update u
      \<lparr>rc_userId = u, rc_username = n, rc_ws = c, rc_joinedAt = now\<rparr> (members s rid)))"
    using keys_distinct_members [OF assms] by (rule distinct_update)
  from assms d Some p show ?thesis
    by (simp add: keys_distinct_def table_handleJoinRoom distinct_update list_all_update)
qed

lemma keys_distinct_handleLeaveRoom:
  "keys_distinct s \<Longrightarrow> keys_distinct (fst (handleLeaveRoom s c mr now))"
  by (cases "binding s c")
     (auto simp: handleLeaveRoom_unbound handleLeaveRoom_bound
           intro: keys_distinct_removeRoomUser)

lemma keys_distinct_handleDisconnection:
  "keys_distinct s \<Longrightarrow> keys_distinct (fst (handleDisconnection s c now))"
  by (auto simp: handleDisconnection_def Let_def split_beta keys_distinct_removeRoomUser
           split: option.splits)

lemma keys_distinct_step:
  assumes "keys_distinct s"
  shows "keys_distinct (fst (step verify s ev))"
proof (cases ev)
  case (Message c m now mid)
  with assms show ?thesis
    by (cases m) (simp_all add: keys_distinct_handleJoinRoom keys_distinct_handleLeaveRoom)
next
  case (Disconnect c now)
  with assms show ?thesis by (simp add: keys_distinct_handleDisconnection)
next
  case (Pong c)
  with assms show ?thesis by simp
next
  case (Heartbeat c now)
  with assms show ?thesis
    by (cases "isAlive (sockets s c)")
       (simp_all add: heartbeat_alive heartbeat_dead keys_distinct_handleDisconnection)
next
  case (Transport c rs)
  with assms show ?thesis by simp
qed

lemma keys_distinct_run:
  "keys_distinct s \<Longrightarrow> keys_distinct (run verify s evs)"
  by (induction evs arbitrary: s) (simp_all add: keys_distinct_step)

lemma keys_distinct_init: "keys_distinct init_state"
  by (simp add: keys_distinct_def init_state_def)

subsection \<open>What a successful join sends\<close>

lemma effects_handleJoinRoom:
  assumes "verify token = Some (u, n)"
  shows "snd (handleJoinRoom verify s c rid token now)
    = broadcastToRoom (fst (handleJoinRoom verify s c rid token now)) rid
        (USER_JOINED rid u n now) (Some u)
      @ sendMessage s c
          (ROOM_STATE rid
             (map (\<lambda>p. (rc_userId (snd p), rc_username (snd p), rc_joinedAt (snd p)))
                (members (fst (handleJoinRoom verify s c rid token now)) rid)) now)
      @ [Log LInfo (''User '' @ n @ '' joined room '' @ rid)]"
  using assms
  by (auto simp: handleJoinRoom_def Let_def members_def update_conv' sendMessage_def
        split_def broadcastToRoom_def split: option.splits)

lemma deliverable_handleJoinRoom:
  "deliverable (fst (handleJoinRoom verify s c rid token now)) ex p = deliverable s ex p"
  by (auto simp: handleJoinRoom_def deliverable_def Let_def split: option.splits)

lemma count_distinct_key:
  "distinct (map fst xs) \<Longrightarrow> p \<in> set xs \<Longrightarrow> P p \<Longrightarrow>
   count_list (map fst (filter P xs)) (fst p) = 1"
proof (induction xs)
  case Nil
  then show ?case by simp
next
  case (Cons x xs)
  show ?case
  proof (cases "p = x")
    case True
    with Cons.prems have "fst x \<notin> fst ` set (filter P xs)" by auto
    then have "count_list (map fst (filter P xs)) (fst x) = 0"
      by (simp add: count_list_0_iff)
    with True Cons.prems show ?thesis by simp
  next
    case False
    with Cons.prems have "p \<in> set xs" "fst x \<noteq> fst p"
      by (auto simp: image_iff)
    with Cons show ?thesis by simp
  qed
qed

text \<open>
  C5 as stated fails.  Alice (socket 1) is in \<open>r1\<close> and her transport is closing when Bob
  joins on socket 2: Alice, a member other than the joiner, is sent no \<open>USER_JOINED\<close>;
  the only write is Bob's snapshot.
\<close>

theorem join_fanout_counterexample:
  "demo_verify ''token-B'' = Some (''B'', ''Bob'')
   \<and> map fst (members (run demo_verify init_state
        [join_ev 1 ''r1'' ''token-A'' 10, Transport 1 CLOSING]) ''r1'') = [''A'']
   \<and> sends (snd (handleJoinRoom demo_verify (run demo_verify init_state
        [join_ev 1 ''r1'' ''token-A'' 10, Transport 1 CLOSING]) 2 ''r1'' ''token-B'' 11))
     = [Send 2 (ROOM_STATE ''r1'' [(''A'', ''Alice'', 10), (''B'', ''Bob'', 11)] 11)]"
  by (simp add: run_eval sends_def)

text \<open>
  C5, amended.  For every successful join in a state reached from the initial state, with
  \<open>u\<close> the joining user and the member map taken after \<open>u\<close>'s entry was inserted: one
  \<open>USER_JOINED\<close> is written to the socket of each member entry whose user id differs
  from \<open>u\<close> and whose transport is open, and to no other entry; user ids in the member
  map are distinct, so each such member is written to exactly once and never twice; no
  \<open>USER_JOINED\<close> is written for \<open>u\<close>'s own entry; and if the joining socket's transport
  is open it is sent one \<open>ROOM_STATE\<close> whose user list is that member map, which
  contains \<open>u\<close>; if it is not open no snapshot is sent.
\<close>

theorem join_notifies_others_once:
  assumes "verify token = Some (u, n)"
  shows
   "sends (snd (handleJoinRoom verify (run verify init_state evs) c rid token now))
      = map (\<lambda>p. Send (rc_ws (snd p)) (USER_JOINED rid u n now))
          (filter (\<lambda>p. fst p \<noteq> u
                       \<and> readyState (sockets (run verify init_state evs) (rc_ws (snd p))) = OPEN)
             (members (fst (handleJoinRoom verify (run verify init_state evs) c rid token now)) rid))
        @ (if readyState (sockets (run verify init_state evs) c) = OPEN
           then [Send c (ROOM_STATE rid
                   (map (\<lambda>p. (rc_userId (snd p), rc_username (snd p), rc_joinedAt (snd p)))
                      (members (fst (handleJoinRoom verify (run verify init_state evs) c rid token now)) rid))
                   now)]
           else [])
    \<and> distinct (map fst
         (members (fst (handleJoinRoom verify (run verify init_state evs) c rid token now)) rid))
    \<and> (\<forall>p \<in> set (members (fst (handleJoinRoom verify (run verify init_state evs) c rid token now)) rid).
          fst p \<noteq> u \<and> readyState (sockets (run verify init_state evs) (rc_ws (snd p))) = OPEN
          \<longrightarrow> count_list (map fst
                 (filter (\<lambda>p. fst p \<noteq> u
                       \<and> readyState (sockets (run verify init_state evs) (rc_ws (snd p))) = OPEN)
                   (members (fst (handleJoinRoom verify (run verify init_state evs) c rid token now)) rid)))
                 (fst p) = 1)
    \<and> map_of (members (fst (handleJoinRoom verify (run verify init_state evs) c rid token now)) rid) u
        = Some \<lparr>rc_userId = u, rc_username = n, rc_ws = c, rc_joinedAt = now\<rparr>
    \<and> (u, n, now) \<in> set (map (\<lambda>p. (rc_userId (snd p), rc_username (snd p), rc_joinedAt (snd p)))
         (members (fst (handleJoinRoom verify (run verify init_state evs) c rid token now)) rid))"
proof -
  let ?s = "run verify init_state evs"
  let ?s' = "fst (handleJoinRoom verify ?s c rid token now)"
  let ?e = "\<lparr>rc_userId = u, rc_username = n, rc_ws = c, rc_joinedAt = now\<rparr>"
  let ?elig = "\<lambda>p. fst p \<noteq> u \<and> readyState (sockets ?s (rc_ws (snd p))) = OPEN"
  have kd: "keys_distinct ?s'"
    by (intro keys_distinct_handleJoinRoom keys_distinct_run keys_distinct_init)
  have dist: "distinct (map fst (members ?s' rid))"
    by (rule keys_distinct_members [OF kd])
  have mem: "members ?s' rid = AList.update u ?e (members ?s rid)"
    using assms by (simp add: members_handleJoinRoom)
  have look: "map_of (members ?s' rid) u = Some ?e"
    by (simp add: mem update_conv')
  then have "(u, ?e) \<in> set (members ?s' rid)"
    by (rule map_of_SomeD)
  then have snap: "(u, n, now) \<in> set (map (\<lambda>p. (rc_userId (snd p), rc_username (snd p),
      rc_joinedAt (snd p))) (members ?s' rid))"
    by force
  have "deliverable ?s' (Some u) p = ?elig p" for p
    unfolding deliverable_handleJoinRoom by (simp add: deliverable_def)
  then have elig: "deliverable ?s' (Some u) = ?elig"
    by (intro ext)
  have out: "sends (snd (handleJoinRoom verify ?s c rid token now))
      = map (\<lambda>p. Send (rc_ws (snd p)) (USER_JOINED rid u n now)) (filter ?elig (members ?s' rid))
        @ (if readyState (sockets ?s c) = OPEN
           then [Send c (ROOM_STATE rid
                   (map (\<lambda>p. (rc_userId (snd p), rc_username (snd p), rc_joinedAt (snd p)))
                      (members ?s' rid)) now)]
           else [])"
    using assms
    by (simp add: effects_handleJoinRoom broadcastToRoom_eq elig sendMessage_def
          sends_def filter_map o_def)
  have once: "\<forall>p \<in> set (members ?s' rid). ?elig p
      \<longrightarrow> count_list (map fst (filter ?elig (members ?s' rid))) (fst p) = 1"
  proof (intro ballI impI)
    fix p
    assume "p \<in> set (members ?s' rid)" and "?elig p"
    with dist show "count_list (map fst (filter ?elig (members ?s' rid))) (fst p) = 1"
      by (rule count_distinct_key)
  qed
  from out dist once look snap show ?thesis by blast
qed

text \<open>Alice (socket 1) is in \<open>r1\<close> with an open transport when Bob joins on socket 2.\<close>

theorem join_notifies_others_once_witness:
  "demo_verify ''token-B'' = Some (''B'', ''Bob'')
   \<and> (''A'', \<lparr>rc_userId = ''A'', rc_username = ''Alice'', rc_ws = 1, rc_joinedAt = 10\<rparr>)
       \<in> set (members (fst (handleJoinRoom demo_verify
             (run demo_verify init_state [join_ev 1 ''r1'' ''token-A'' 10])
             2 ''r1'' ''token-B'' 11)) ''r1'')
   \<and> ''A'' \<noteq> ''B''
   \<and> readyState (sockets (run demo_verify init_state [join_ev 1 ''r1'' ''token-A'' 10]) 1) = OPEN
   \<and> sends (snd (handleJoinRoom demo_verify
             (run demo_verify init_state [join_ev 1 ''r1'' ''token-A'' 10])
             2 ''r1'' ''token-B'' 11))
       = [Send 1 (USER_JOINED ''r1'' ''B'' ''Bob'' 11),
          Send 2 (ROOM_STATE ''r1'' [(''A'', ''Alice'', 10), (''B'', ''Bob'', 11)] 11)]
   \<and> count_list (map fst
         (filter (\<lambda>p. fst p \<noteq> ''B''
                   \<and> readyState (sockets (run demo_verify init_state
                         [join_ev 1 ''r1'' ''token-A'' 10]) (rc_ws (snd p))) = OPEN)
            (members (fst (handleJoinRoom demo_verify
               (run demo_verify init_state [join_ev 1 ''r1'' ''token-A'' 10])
               2 ''r1'' ''token-B'' 11)) ''r1''))) ''A'' = 1"
proof -
  have v: "demo_verify ''token-B'' = Some (''B'', ''Bob'')"
    by (simp add: demo_verify_def)
  note t = join_notifies_others_once
             [where verify = demo_verify and token = "''token-B''" and u = "''B''"
                and n = "''Bob''" and evs = "[join_ev 1 ''r1'' ''token-A'' 10]" and c = 2
                and rid = "''r1''" and now = 11, OF v]
  from t v show ?thesis
    by (simp add: run_eval)
qed

subsection \<open>Member ids after each handler\<close>

lemma keys_delete: "fst ` set (AList.delete u m) = fst ` set m - {u}"
  by (auto simp: AList.delete_eq)

lemma memberIds_handleJoinRoom:
  "verify token = Some (u, n) \<Longrightarrow>
   memberIds (fst (handleJoinRoom verify s c rid token now)) r =
     (if r = rid then insert u (memberIds s rid) else memberIds s r)"
  by (simp add: memberIds_def members_handleJoinRoom dom_update)

lemma memberIds_handleLeaveRoom:
  "memberIds (fst (handleLeaveRoom s c mr now)) r' =
     (case binding s c of
        None \<Rightarrow> memberIds s r'
      | Some (u, r) \<Rightarrow> if r' = r then memberIds s r - {u} else memberIds s r')"
  by (simp add: memberIds_def members_handleLeaveRoom keys_delete split: option.splits)

lemma memberIds_handleDisconnection:
  "memberIds (fst (handleDisconnection s c now)) r' =
     (case binding s c of
        None \<Rightarrow> memberIds s r'
      | Some (u, r) \<Rightarrow> if r' = r then memberIds s r - {u} else memberIds s r')"
  by (simp add: memberIds_def members_handleDisconnection keys_delete split: option.splits)

lemma memberIds_sockets_upd [simp]: "memberIds (s\<lparr>sockets := y\<rparr>) = memberIds s"
  by (simp add: memberIds_def fun_eq_iff)

lemma sockets_handleLeaveRoom:
  "sockets (fst (handleLeaveRoom s c mr now)) =
     (case binding s c of
        None \<Rightarrow> sockets s
      | Some p \<Rightarrow> (sockets s)(c := (sockets s c)\<lparr>userId := None, roomId := None\<rparr>))"
  by (auto simp: handleLeaveRoom_unbound handleLeaveRoom_bound split: option.splits)

subsection \<open>The handlers implement the recorded account of membership\<close>

lemma coupled_binding:
  "coupled s t \<Longrightarrow>
   binding s c = (case sp_binding t c of
                    None \<Rightarrow> None
                  | Some (u, r) \<Rightarrow> if u = [] \<or> r = [] then None else Some (u, r))"
  by (auto simp: coupled_def binding_def split: option.splits)

lemma coupled_join:
  assumes "coupled s t"
  shows "coupled (fst (handleJoinRoom verify s c rid token now))
           (recorded_step verify t (Message c (JoinRoomMessage rid token) now mid))"
proof (cases "verify token")
  case None
  with assms show ?thesis by (simp add: handleJoinRoom_rejected)
next
  case (Some p)
  obtain u n where p: "p = (u, n)" by (cases p)
  with Some have v: "verify token = Some (u, n)" by simp
  from assms show ?thesis
    by (auto simp: coupled_def v sockets_handleJoinRoom memberIds_handleJoinRoom)
qed

lemma coupled_leave:
  assumes "coupled s t"
  shows "coupled (fst (handleLeaveRoom s c mr now))
           (recorded_step verify t (Message c (LeaveRoomMessage mr) now mid))"
proof (cases "sp_binding t c")
  case None
  with assms have "binding s c = None" by (simp add: coupled_binding)
  with assms None show ?thesis by (simp add: handleLeaveRoom_unbound)
next
  case (Some p)
  obtain u r where p: "p = (u, r)" by (cases p)
  show ?thesis
  proof (cases "u = [] \<or> r = []")
    case True
    with assms Some p have "binding s c = None" by (simp add: coupled_binding)
    with assms Some p True show ?thesis by (simp add: handleLeaveRoom_unbound)
  next
    case False
    with assms Some p have b: "binding s c = Some (u, r)" by (simp add: coupled_binding)
    from assms Some p False show ?thesis
      by (auto simp: coupled_def sockets_handleLeaveRoom memberIds_handleLeaveRoom b)
  qed
qed

lemma coupled_disconnect:
  assumes "coupled s t"
  shows "coupled (fst (handleDisconnection s c now)) (recorded_disconnect t c)"
proof (cases "sp_binding t c")
  case None
  with assms have "binding s c = None" by (simp add: coupled_binding)
  with assms None show ?thesis
    by (simp add: coupled_def recorded_disconnect_def memberIds_handleDisconnection)
next
  case (Some p)
  obtain u r where p: "p = (u, r)" by (cases p)
  show ?thesis
  proof (cases "u = [] \<or> r = []")
    case True
    with assms Some p have "binding s c = None" by (simp add: coupled_binding)
    with assms Some p True show ?thesis
      by (simp add: coupled_def recorded_disconnect_def memberIds_handleDisconnection)
  next
    case False
    with assms Some p have b: "binding s c = Some (u, r)" by (simp add: coupled_binding)
    from assms Some p False show ?thesis
      by (auto simp: coupled_def recorded_disconnect_def memberIds_handleDisconnection b)
  qed
qed

lemma coupled_alive: "coupled s t \<Longrightarrow> isAlive (sockets s c) = sp_alive t c"
  by (simp add: coupled_def)

lemma coupled_step:
  assumes "coupled s t"
  shows "coupled (fst (step verify s ev)) (recorded_step verify t ev)"
proof (cases ev)
  case (Message c m now mid)
  show ?thesis
  proof (cases m)
    case (JoinRoomMessage rid token)
    with Message coupled_join [OF assms] show ?thesis
      by (simp del: recorded_step.simps)
  next
    case (LeaveRoomMessage mr)
    with Message coupled_leave [OF assms] show ?thesis
      by (simp del: recorded_step.simps)
  qed (use assms Message in simp_all)
next
  case (Disconnect c now)
  with coupled_disconnect [OF assms] show ?thesis by simp
next
  case (Pong c)
  with assms show ?thesis by (simp add: coupled_def)
next
  case (Heartbeat c now)
  show ?thesis
  proof (cases "sp_alive t c")
    case True
    with assms have "isAlive (sockets s c)" by (simp add: coupled_alive)
    with assms True Heartbeat show ?thesis
      by (simp add: heartbeat_alive coupled_def)
  next
    case False
    with assms have "\<not> isAlive (sockets s c)" by (simp add: coupled_alive)
    with False Heartbeat coupled_disconnect [OF assms] show ?thesis
      by (simp add: heartbeat_dead)
  qed
next
  case (Transport c rs)
  with assms show ?thesis by (simp add: coupled_def)
qed

lemma coupled_run:
  "coupled s t \<Longrightarrow> coupled (run verify s evs) (recorded_run verify t evs)"
  by (induction evs arbitrary: s t) (simp_all add: coupled_step)

lemma coupled_init: "coupled init_state init_spec"
  by (simp add: coupled_def init_state_def init_spec_def memberIds_def members_def)

lemma room_users_iff: "(u \<in> room_users t rid) = ((rid, u) \<in> sp_members t)"
  by (force simp: room_users_def)

text \<open>
  C1 as stated fails.  Socket 1 joins \<open>r1\<close> as Alice, joins \<open>r2\<close> as Alice, and is then
  disconnected.  Alice has been disconnected, so by the claim she is a member of no room;
  the table still records her in \<open>r1\<close>, because the disconnect routine only looks at the
  room the socket is bound to, which is \<open>r2\<close>.
\<close>

theorem member_set_counterexample:
  "memberIds (run demo_verify init_state
      [join_ev 1 ''r1'' ''token-A'' 10, join_ev 1 ''r2'' ''token-A'' 11, Disconnect 1 12]) ''r1''
     = {''A''}
   \<and> room_users (claimed_run demo_verify init_spec
      [join_ev 1 ''r1'' ''token-A'' 10, join_ev 1 ''r2'' ''token-A'' 11, Disconnect 1 12]) ''r1''
     = {}"
  by (auto simp: run_eval memberIds_def room_users_def init_spec_def claimed_disconnect_def)

text \<open>
  C1, amended.  For every sequence of events, the member set recorded for a room equals
  exactly the set of user ids that have successfully joined that room and have not since
  been taken out of it, where a leave or a disconnect (or eviction) handled on a socket
  takes out only the user the socket is bound to, and only from the room the socket is
  bound to, and only if both are non-empty; the binding is that of the socket's last
  successful join, it is cleared by a leave and kept by a disconnect.
\<close>

theorem member_set_is_recorded_account:
  "memberIds (run verify init_state evs) rid
     = room_users (recorded_run verify init_spec evs) rid"
proof -
  have "coupled (run verify init_state evs) (recorded_run verify init_spec evs)"
    by (rule coupled_run [OF coupled_init])
  then show ?thesis
    by (auto simp: coupled_def room_users_iff)
qed

theorem member_set_is_recorded_account_witness:
  "memberIds (run demo_verify init_state
      [join_ev 1 ''r1'' ''token-A'' 10, join_ev 1 ''r2'' ''token-A'' 11, Disconnect 1 12]) ''r1''
     = {''A''}
   \<and> room_users (recorded_run demo_verify init_spec
      [join_ev 1 ''r1'' ''token-A'' 10, join_ev 1 ''r2'' ''token-A'' 11, Disconnect 1 12]) ''r1''
     = {''A''}"
proof -
  have "memberIds (run demo_verify init_state
      [join_ev 1 ''r1'' ''token-A'' 10, join_ev 1 ''r2'' ''token-A'' 11, Disconnect 1 12]) ''r1''
     = {''A''}"
    by (simp add: run_eval memberIds_def)
  with member_set_is_recorded_account [of demo_verify
      "[join_ev 1 ''r1'' ''token-A'' 10, join_ev 1 ''r2'' ''token-A'' 11, Disconnect 1 12]" "''r1''"]
  show ?thesis by simp
qed

subsection \<open>One room per user\<close>

lemma entry_handleJoinRoom:
  "verify token = Some (u, n) \<Longrightarrow>
   map_of (members (fst (handleJoinRoom verify s c rid token now)) r') u' =
     (if r' = rid \<and> u' = u
      then Some \<lparr>rc_userId = u, rc_username = n, rc_ws = c, rc_joinedAt = now\<rparr>
      else map_of (members s r') u')"
  by (simp add: members_handleJoinRoom update_conv')

lemma connections_handleJoinRoom:
  "verify token = Some (u, n) \<Longrightarrow>
   connections (fst (handleJoinRoom verify s c rid token now)) = (connections s)(u \<mapsto> c)"
  by (auto simp: handleJoinRoom_def Let_def split: option.splits)

lemma entry_removeRoomUser:
  "map_of (members (fst (removeRoomUser s r u now)) r') u' =
     (if r' = r \<and> u' = u then None else map_of (members s r') u')"
  by (simp add: members_removeRoomUser delete_conv')

lemma owned_join:
  assumes own: "owned s"
    and v: "verify token = Some (u, n)"
    and g: "rid \<noteq> []" "connections s u = None"
  shows "owned (fst (handleJoinRoom verify s c rid token now))"
  unfolding owned_def
proof (intro allI impI)
  fix r' u' e'
  let ?s' = "fst (handleJoinRoom verify s c rid token now)"
  assume en: "map_of (members ?s' r') u' = Some e'"
  show "connections ?s' u' = Some (rc_ws e') \<and> r' \<noteq> []
        \<and> (userId (sockets ?s' (rc_ws e')) = Some u'
             \<longrightarrow> roomId (sockets ?s' (rc_ws e')) = Some r')"
  proof (cases "r' = rid \<and> u' = u")
    case True
    with en v have "e' = \<lparr>rc_userId = u, rc_username = n, rc_ws = c, rc_joinedAt = now\<rparr>"
      by (simp add: entry_handleJoinRoom)
    with True v g show ?thesis
      by (simp add: connections_handleJoinRoom sockets_handleJoinRoom)
  next
    case False
    with en v have old: "map_of (members s r') u' = Some e'"
      by (simp add: entry_handleJoinRoom)
    with own have o: "connections s u' = Some (rc_ws e')" "r' \<noteq> []"
      "userId (sockets s (rc_ws e')) = Some u' \<longrightarrow> roomId (sockets s (rc_ws e')) = Some r'"
      unfolding owned_def by blast+
    from o(1) g(2) have "u' \<noteq> u" by auto
    with o v show ?thesis
      by (simp add: connections_handleJoinRoom sockets_handleJoinRoom)
  qed
qed

lemma owned_removed:
  assumes own: "owned s"
    and u: "userId (sockets s c) = Some u"
    and g: "connections s u = None \<or> connections s u = Some c"
    and en: "map_of (members s r') u' = Some e'"
    and gone: "u' = u \<longrightarrow> roomId (sockets s c) \<noteq> Some r'"
  shows "u' \<noteq> u"
proof
  assume eq: "u' = u"
  from own en have o: "connections s u' = Some (rc_ws e')"
    "userId (sockets s (rc_ws e')) = Some u' \<longrightarrow> roomId (sockets s (rc_ws e')) = Some r'"
    unfolding owned_def by blast+
  from eq o(1) g have "rc_ws e' = c" by auto
  with o(2) u eq have "roomId (sockets s c) = Some r'" by simp
  with gone eq show False by simp
qed

lemma owned_leave:
  assumes own: "owned s" and g: "owner_ok s c"
  shows "owned (fst (handleLeaveRoom s c mr now))"
proof (cases "binding s c")
  case None
  with own show ?thesis by (simp add: handleLeaveRoom_unbound)
next
  case (Some p)
  obtain u r where p: "p = (u, r)" by (cases p)
  with Some have b: "binding s c = Some (u, r)" by simp
  then have f: "userId (sockets s c) = Some u" "roomId (sockets s c) = Some r"
    by (auto simp: binding_def split: option.splits if_splits)
  from g f have g': "connections s u = None \<or> connections s u = Some c"
    by (simp add: owner_ok_def)
  let ?s' = "fst (handleLeaveRoom s c mr now)"
  show ?thesis
    unfolding owned_def
  proof (intro allI impI)
    fix r' u' e'
    assume en: "map_of (members ?s' r') u' = Some e'"
    with b have old: "map_of (members s r') u' = Some e'" and nt: "\<not> (r' = r \<and> u' = u)"
      by (auto simp: handleLeaveRoom_bound entry_removeRoomUser split: if_splits)
    from nt f have "u' = u \<longrightarrow> roomId (sockets s c) \<noteq> Some r'" by auto
    with own f(1) g' old have ne: "u' \<noteq> u"
      by (rule owned_removed)
    from own old have "connections s u' = Some (rc_ws e') \<and> r' \<noteq> []
        \<and> (userId (sockets s (rc_ws e')) = Some u'
             \<longrightarrow> roomId (sockets s (rc_ws e')) = Some r')"
      unfolding owned_def by blast
    with ne b show "connections ?s' u' = Some (rc_ws e') \<and> r' \<noteq> []
        \<and> (userId (sockets ?s' (rc_ws e')) = Some u'
             \<longrightarrow> roomId (sockets ?s' (rc_ws e')) = Some r')"
      by (simp add: handleLeaveRoom_bound)
  qed
qed

lemma owned_disconnect:
  assumes own: "owned s" and g: "owner_ok s c"
  shows "owned (fst (handleDisconnection s c now))"
proof (cases "userId (sockets s c) = None \<or> userId (sockets s c) = Some []")
  case True
  with own show ?thesis by (simp add: handleDisconnection_falsy)
next
  case False
  then obtain u where u: "userId (sockets s c) = Some u" "u \<noteq> []" by auto
  from g u have g': "connections s u = None \<or> connections s u = Some c"
    by (simp add: owner_ok_def)
  let ?s' = "fst (handleDisconnection s c now)"
  show ?thesis
  proof (cases "binding s c")
    case None
    then have st: "handleDisconnection s c now
        = (s\<lparr>connections := (connections s)(u := None)\<rparr>,
           [Log LInfo (''User '' @ u @ '' disconnected'')])"
      using u by (simp add: handleDisconnection_noroom)
    from None u have nr: "roomId (sockets s c) = None \<or> roomId (sockets s c) = Some []"
      by (auto simp: binding_def split: option.splits if_splits)
    show ?thesis
      unfolding owned_def
    proof (intro allI impI)
      fix r' u' e'
      assume "map_of (members ?s' r') u' = Some e'"
      with st have old: "map_of (members s r') u' = Some e'" by simp
      from own old have o: "connections s u' = Some (rc_ws e') \<and> r' \<noteq> []
          \<and> (userId (sockets s (rc_ws e')) = Some u'
               \<longrightarrow> roomId (sockets s (rc_ws e')) = Some r')"
        unfolding owned_def by blast
      with nr have "u' = u \<longrightarrow> roomId (sockets s c) \<noteq> Some r'" by auto
      with own u(1) g' old have "u' \<noteq> u"
        by (rule owned_removed)
      with o st show "connections ?s' u' = Some (rc_ws e') \<and> r' \<noteq> []
          \<and> (userId (sockets ?s' (rc_ws e')) = Some u'
               \<longrightarrow> roomId (sockets ?s' (rc_ws e')) = Some r')"
        by simp
    qed
  next
    case (Some p)
    obtain u0 r where p: "p = (u0, r)" by (cases p)
    with Some u have b: "binding s c = Some (u, r)"
      by (auto simp: binding_def split: option.splits if_splits)
    then have f: "roomId (sockets s c) = Some r"
      by (auto simp: binding_def split: option.splits if_splits)
    show ?thesis
      unfolding owned_def
    proof (intro allI impI)
      fix r' u' e'
      assume en: "map_of (members ?s' r') u' = Some e'"
      with b have old: "map_of (members s r') u' = Some e'" and nt: "\<not> (r' = r \<and> u' = u)"
        by (auto simp: handleDisconnection_bound entry_removeRoomUser split: if_splits)
      from nt f have "u' = u \<longrightarrow> roomId (sockets s c) \<noteq> Some r'" by auto
      with own u(1) g' old have ne: "u' \<noteq> u"
        by (rule owned_removed)
      from own old have "connections s u' = Some (rc_ws e') \<and> r' \<noteq> []
          \<and> (userId (sockets s (rc_ws e')) = Some u'
               \<longrightarrow> roomId (sockets s (rc_ws e')) = Some r')"
        unfolding owned_def by blast
      with ne b show "connections ?s' u' = Some (rc_ws e') \<and> r' \<noteq> []
          \<and> (userId (sockets ?s' (rc_ws e')) = Some u'
               \<longrightarrow> roomId (sockets ?s' (rc_ws e')) = Some r')"
        by (simp add: handleDisconnection_bound)
    qed
  qed
qed

lemma owned_socket_flag:
  assumes "owned s"
    and "\<And>k. userId (f k) = userId (sockets s k) \<and> roomId (f k) = roomId (sockets s k)"
  shows "owned (s\<lparr>sockets := f\<rparr>)"
  using assms unfolding owned_def by simp

lemma owned_step:
  assumes own: "owned s" and ord: "orderly verify s ev"
  shows "owned (fst (step verify s ev))"
proof (cases ev)
  case (Message c m now mid)
  show ?thesis
  proof (cases m)
    case (JoinRoomMessage rid token)
    show ?thesis
    proof (cases "verify token")
      case None
      with Message JoinRoomMessage own show ?thesis
        by (simp add: handleJoinRoom_rejected)
    next
      case (Some p)
      obtain u n where "p = (u, n)" by (cases p)
      with Some have v: "verify token = Some (u, n)" by simp
      from ord Message JoinRoomMessage v
      have "rid \<noteq> []" "connections s u = None"
        by simp_all
      with own v have "owned (fst (handleJoinRoom verify s c rid token now))"
        by (rule owned_join)
      with Message JoinRoomMessage show ?thesis by simp
    qed
  next
    case (LeaveRoomMessage mr)
    with Message ord own show ?thesis by (simp add: owned_leave)
  qed (use Message own in simp_all)
next
  case (Disconnect c now)
  with ord own show ?thesis by (simp add: owned_disconnect)
next
  case (Pong c)
  with own show ?thesis by (simp add: owned_socket_flag)
next
  case (Heartbeat c now)
  show ?thesis
  proof (cases "isAlive (sockets s c)")
    case True
    with Heartbeat own show ?thesis by (simp add: heartbeat_alive owned_socket_flag)
  next
    case False
    with Heartbeat ord have "owner_ok s c" by simp
    with own have "owned (fst (handleDisconnection s c now))" by (rule owned_disconnect)
    with False Heartbeat show ?thesis by (simp add: heartbeat_dead)
  qed
next
  case (Transport c rs)
  with own show ?thesis by (simp add: owned_socket_flag)
qed

text \<open>
  Under the protocol a user has entries in at most one room: a join adds an entry only
  for a user that is not registered, and an unregistered user has no entry at all.
\<close>

lemma one_room_step:
  assumes own: "owned s" and ord: "orderly verify s ev"
    and single: "\<forall>v r1 r2. v \<in> memberIds s r1 \<longrightarrow> v \<in> memberIds s r2 \<longrightarrow> r1 = r2"
  shows "\<forall>v r1 r2. v \<in> memberIds (fst (step verify s ev)) r1
           \<longrightarrow> v \<in> memberIds (fst (step verify s ev)) r2 \<longrightarrow> r1 = r2"
proof (intro allI impI)
  fix v r1 r2
  assume in1: "v \<in> memberIds (fst (step verify s ev)) r1"
    and in2: "v \<in> memberIds (fst (step verify s ev)) r2"
  show "r1 = r2"
  proof (cases ev)
    case (Message c m now mid)
    show ?thesis
    proof (cases m)
      case (JoinRoomMessage rid token)
      show ?thesis
      proof (cases "verify token")
        case None
        with Message JoinRoomMessage in1 in2 single show ?thesis
          by (simp add: handleJoinRoom_rejected)
      next
        case (Some p)
        obtain u n where "p = (u, n)" by (cases p)
        with Some have v: "verify token = Some (u, n)" by simp
        from ord Message JoinRoomMessage v have free: "connections s u = None"
          by simp
        have el: "u \<notin> memberIds s r" for r
        proof
          assume "u \<in> memberIds s r"
          then obtain e where "map_of (members s r) u = Some e"
            unfolding memberIds_def by (metis map_of_eq_None_iff not_None_eq)
          with own have "connections s u = Some (rc_ws e)"
            unfolding owned_def by blast
          with free show False by simp
        qed
        from in1 in2 Message JoinRoomMessage v
        have a: "v \<in> (if r1 = rid then insert u (memberIds s rid) else memberIds s r1)"
          and b: "v \<in> (if r2 = rid then insert u (memberIds s rid) else memberIds s r2)"
          by (simp_all add: memberIds_handleJoinRoom)
        show ?thesis
        proof (cases "v = u")
          case True
          with a b el show ?thesis by metis
        next
          case False
          with a b have "v \<in> memberIds s r1" "v \<in> memberIds s r2"
            by (auto split: if_splits)
          with single show ?thesis by blast
        qed
      qed
    next
      case (LeaveRoomMessage mr)
      with Message in1 in2 have "v \<in> memberIds s r1" "v \<in> memberIds s r2"
        by (auto simp: memberIds_handleLeaveRoom split: option.splits if_splits)
      with single show ?thesis by blast
    qed (use Message in1 in2 single in auto)
  next
    case (Disconnect c now)
    with in1 in2 have "v \<in> memberIds s r1" "v \<in> memberIds s r2"
      by (auto simp: memberIds_handleDisconnection split: option.splits if_splits)
    with single show ?thesis by blast
  next
    case (Pong c)
    with in1 in2 single show ?thesis by auto
  next
    case (Heartbeat c now)
    with in1 in2 have "v \<in> memberIds s r1" "v \<in> memberIds s r2"
      by (cases "isAlive (sockets s c)";
          auto simp: heartbeat_alive heartbeat_dead memberIds_handleDisconnection
               split: option.splits if_splits)+
    with single show ?thesis by blast
  next
    case (Transport c rs)
    with in1 in2 single show ?thesis by auto
  qed
qed

lemma one_room_run:
  "owned s
   \<Longrightarrow> \<forall>v r1 r2. v \<in> memberIds s r1 \<longrightarrow> v \<in> memberIds s r2 \<longrightarrow> r1 = r2
   \<Longrightarrow> orderly_run verify s evs
   \<Longrightarrow> \<forall>v r1 r2. v \<in> memberIds (run verify s evs) r1
         \<longrightarrow> v \<in> memberIds (run verify s evs) r2 \<longrightarrow> r1 = r2"
proof (induction evs arbitrary: s)
  case Nil
  then show ?case by simp
next
  case (Cons e es)
  from Cons.prems have o: "orderly verify s e"
    and rest: "orderly_run verify (fst (step verify s e)) es"
    by simp_all
  from Cons.prems(1) o have "owned (fst (step verify s e))"
    by (rule owned_step)
  moreover from Cons.prems(1) o Cons.prems(2)
  have "\<forall>v r1 r2. v \<in> memberIds (fst (step verify s e)) r1
      \<longrightarrow> v \<in> memberIds (fst (step verify s e)) r2 \<longrightarrow> r1 = r2"
    by (rule one_room_step)
  ultimately show ?case
    using rest Cons.IH [of "fst (step verify s e)"] by simp
qed

lemma owned_init: "owned init_state"
  by (simp add: owned_def members_def init_state_def)

text \<open>
  C3 as stated fails.  Socket 1 joins \<open>r1\<close> as Alice and then joins \<open>r2\<close> as Alice:
  the second join adds an entry to \<open>r2\<close> and leaves the entry in \<open>r1\<close> in place, so
  Alice appears in the member maps of two rooms at once.
\<close>

theorem one_room_counterexample:
  "''A'' \<in> memberIds (run demo_verify init_state
      [join_ev 1 ''r1'' ''token-A'' 10, join_ev 1 ''r2'' ''token-A'' 11]) ''r1''
   \<and> ''A'' \<in> memberIds (run demo_verify init_state
      [join_ev 1 ''r1'' ''token-A'' 10, join_ev 1 ''r2'' ''token-A'' 11]) ''r2''
   \<and> ''r1'' \<noteq> ''r2''"
  by (simp add: run_eval memberIds_def)

text \<open>
  Each proviso of the session protocol is needed.  In the first run only the second join
  is out of order, for a user that is still registered.  In the second run only the room
  id of the first join is empty: the disconnect routine skips the room, Alice keeps her
  entry there and later joins \<open>r2\<close>.  In the third run only the last cleanup of socket 1
  is out of order, after Alice re-registered on socket 2: it deletes her registration, and
  her next join on socket 3 finds her entry in \<open>r2\<close> still in place.
\<close>

lemma session_protocol_provisos_needed:
  "''A'' \<in> memberIds (run demo_verify init_state
      [join_ev 1 ''r1'' ''token-A'' 10, join_ev 2 ''r2'' ''token-A'' 11]) ''r1''
   \<and> ''A'' \<in> memberIds (run demo_verify init_state
      [join_ev 1 ''r1'' ''token-A'' 10, join_ev 2 ''r2'' ''token-A'' 11]) ''r2''
   \<and> ''A'' \<in> memberIds (run demo_verify init_state
      [join_ev 1 [] ''token-A'' 10, Disconnect 1 11, join_ev 2 ''r2'' ''token-A'' 12]) []
   \<and> ''A'' \<in> memberIds (run demo_verify init_state
      [join_ev 1 [] ''token-A'' 10, Disconnect 1 11, join_ev 2 ''r2'' ''token-A'' 12]) ''r2''
   \<and> ''A'' \<in> memberIds (run demo_verify init_state
      [join_ev 1 ''r1'' ''token-A'' 10, Disconnect 1 11, join_ev 2 ''r2'' ''token-A'' 12,
       Disconnect 1 13, join_ev 3 ''r3'' ''token-A'' 14]) ''r2''
   \<and> ''A'' \<in> memberIds (run demo_verify init_state
      [join_ev 1 ''r1'' ''token-A'' 10, Disconnect 1 11, join_ev 2 ''r2'' ''token-A'' 12,
       Disconnect 1 13, join_ev 3 ''r3'' ''token-A'' 14]) ''r3''"
  by (simp add: run_eval memberIds_def)

text \<open>
  C3, amended.  In every state reached from the initial state, a user id has at most one
  entry in the member map of any one room, and a successful join for one room leaves the
  member map of every other room as it was: the join handler removes nothing.  No user id
  appears in the member maps of two different rooms in the states reached by clients that
  follow the session protocol: every join that succeeds is for a user id that no socket is
  registered under and names a non-empty room; and every leave and every disconnect
  cleanup is handled on a socket while no other socket is registered under the user id it
  carries.
\<close>

theorem one_room_per_user_for_orderly_clients:
  "distinct (map fst (members (run verify init_state evs) r1))
   \<and> (r3 \<noteq> rid \<longrightarrow>
        members (fst (handleJoinRoom verify (run verify init_state evs) c rid token now)) r3
          = members (run verify init_state evs) r3)
   \<and> (orderly_run verify init_state evs
        \<and> u \<in> memberIds (run verify init_state evs) r1
        \<and> u \<in> memberIds (run verify init_state evs) r2 \<longrightarrow> r1 = r2)"
proof -
  have dist: "distinct (map fst (members (run verify init_state evs) r1))"
    by (intro keys_distinct_members keys_distinct_run keys_distinct_init)
  have frame: "r3 \<noteq> rid \<longrightarrow>
      members (fst (handleJoinRoom verify (run verify init_state evs) c rid token now)) r3
        = members (run verify init_state evs) r3"
    by (cases "verify token")
       (auto simp: handleJoinRoom_rejected members_handleJoinRoom)
  have one: "r1 = r2"
    if "orderly_run verify init_state evs"
      "u \<in> memberIds (run verify init_state evs) r1"
      "u \<in> memberIds (run verify init_state evs) r2"
  proof -
    have "\<forall>v r1 r2. v \<in> memberIds init_state r1 \<longrightarrow> v \<in> memberIds init_state r2
        \<longrightarrow> r1 = r2"
      by (simp add: memberIds_def members_def init_state_def)
    with owned_init
    have "\<forall>v r1 r2. v \<in> memberIds (run verify init_state evs) r1
        \<longrightarrow> v \<in> memberIds (run verify init_state evs) r2 \<longrightarrow> r1 = r2"
      using that(1) by (rule one_room_run)
    with that(2,3) show ?thesis by blast
  qed
  from dist frame one show ?thesis by blast
qed

text \<open>
  Alice joins \<open>r1\<close> on socket 1; the socket is cleaned up twice (its error and its close
  event); she reconnects on socket 2 and joins \<open>r2\<close>, leaves, and joins \<open>r3\<close>.  A
  further join for \<open>r4\<close> would leave her entry in \<open>r3\<close> as it is.
\<close>

theorem one_room_per_user_for_orderly_clients_witness:
  "orderly_run demo_verify init_state
      [join_ev 1 ''r1'' ''token-A'' 10, Disconnect 1 11, Disconnect 1 12,
       join_ev 2 ''r2'' ''token-A'' 13, Message 2 (LeaveRoomMessage ''r2'') 14 ''id'',
       join_ev 2 ''r3'' ''token-A'' 15]
   \<and> ''A'' \<in> memberIds (run demo_verify init_state
      [join_ev 1 ''r1'' ''token-A'' 10, Disconnect 1 11, Disconnect 1 12,
       join_ev 2 ''r2'' ''token-A'' 13, Message 2 (LeaveRoomMessage ''r2'') 14 ''id'',
       join_ev 2 ''r3'' ''token-A'' 15]) ''r3''
   \<and> ''A'' \<notin> memberIds (run demo_verify init_state
      [join_ev 1 ''r1'' ''token-A'' 10, Disconnect 1 11, Disconnect 1 12,
       join_ev 2 ''r2'' ''token-A'' 13, Message 2 (LeaveRoomMessage ''r2'') 14 ''id'',
       join_ev 2 ''r3'' ''token-A'' 15]) ''r1''
   \<and> ''A'' \<notin> memberIds (run demo_verify init_state
      [join_ev 1 ''r1'' ''token-A'' 10, Disconnect 1 11, Disconnect 1 12,
       join_ev 2 ''r2'' ''token-A'' 13, Message 2 (LeaveRoomMessage ''r2'') 14 ''id'',
       join_ev 2 ''r3'' ''token-A'' 15]) ''r2''
   \<and> ''r3'' \<noteq> ''r4''
   \<and> members (fst (handleJoinRoom demo_verify (run demo_verify init_state
      [join_ev 1 ''r1'' ''token-A'' 10, Disconnect 1 11, Disconnect 1 12,
       join_ev 2 ''r2'' ''token-A'' 13, Message 2 (LeaveRoomMessage ''r2'') 14 ''id'',
       join_ev 2 ''r3'' ''token-A'' 15]) 2 ''r4'' ''token-A'' 16)) ''r3''
     = members (run demo_verify init_state
      [join_ev 1 ''r1'' ''token-A'' 10, Disconnect 1 11, Disconnect 1 12,
       join_ev 2 ''r2'' ''token-A'' 13, Message 2 (LeaveRoomMessage ''r2'') 14 ''id'',
       join_ev 2 ''r3'' ''token-A'' 15]) ''r3''"
proof -
  let ?evs = "[join_ev 1 ''r1'' ''token-A'' 10, Disconnect 1 11, Disconnect 1 12,
       join_ev 2 ''r2'' ''token-A'' 13, Message 2 (LeaveRoomMessage ''r2'') 14 ''id'',
       join_ev 2 ''r3'' ''token-A'' 15]"
  have f: "orderly_run demo_verify init_state ?evs"
    by (simp add: run_eval owner_ok_def)
  have a: "''A'' \<in> memberIds (run demo_verify init_state ?evs) ''r3''"
    by (simp add: run_eval memberIds_def)
  have d: "''r1'' \<noteq> ''r3''" "''r2'' \<noteq> ''r3''" "''r3'' \<noteq> ''r4''"
    by simp_all
  note t1 = one_room_per_user_for_orderly_clients
              [where verify = demo_verify and evs = ?evs and u = "''A''" and ?r1.0 = "''r1''"
                 and ?r2.0 = "''r3''", THEN conjunct2, THEN conjunct2, rule_format]
  note t2 = one_room_per_user_for_orderly_clients
              [where verify = demo_verify and evs = ?evs and u = "''A''" and ?r1.0 = "''r2''"
                 and ?r2.0 = "''r3''", THEN conjunct2, THEN conjunct2, rule_format]
  note t3 = one_room_per_user_for_orderly_clients
              [where verify = demo_verify and evs = ?evs and ?r3.0 = "''r3''"
                 and rid = "''r4''" and c = 2 and token = "''token-A''" and now = 16,
               THEN conjunct2, THEN conjunct1, rule_format, OF d(3)]
  from t1 f a d(1) have 1: "''A'' \<notin> memberIds (run demo_verify init_state ?evs) ''r1''"
    by blast
  from t2 f a d(2) have 2: "''A'' \<notin> memberIds (run demo_verify init_state ?evs) ''r2''"
    by blast
  from f a 1 2 d(3) t3 show ?thesis by blast
qed

end
